theory Spec2Isabelle
  imports Main "HOL-Library.Product_Lexorder"
begin

section \<open>ec2-start-stop: data model\<close>

text \<open>
  The script \<^verbatim>\<open>ec2-start-stop.py\<close> works on the dictionaries that the EC2
  \<^verbatim>\<open>describe_instances\<close> call returns and on a configuration dictionary read from S3.
  A dictionary with a fixed set of keys is a record here; a key that the provider may
  leave out (\<^verbatim>\<open>'Tags'\<close> of an instance that carries no tag) is an option, and reading
  it when it is absent is the \<^verbatim>\<open>KeyError\<close> of the source.
\<close>

datatype py_error =
  KeyError | TypeError | ValueError | IndexError | AttributeError | OverflowError | ClientError

record tag =
  Key :: string
  Value :: string

record ec2_instance =
  InstanceId :: string
  Tags :: "tag list option"

record reservation =
  Instances :: "ec2_instance list"

record data =
  Reservations :: "reservation list"

text \<open>
  The configuration: \<^verbatim>\<open>config['schedule']['allDay']\<close>, \<^verbatim>\<open>config['schedule']['halfDay']\<close>,
  \<^verbatim>\<open>config['stop_untagged_instances']\<close>, \<^verbatim>\<open>config['role_arns']\<close>,
  \<^verbatim>\<open>config['times']['startTime']\<close>, \<^verbatim>\<open>config['times']['stopTime']\<close> and
  \<^verbatim>\<open>config['account_names']\<close> (a dictionary, here an association list).
\<close>

record config =
  cfg_allDay :: string
  cfg_halfDay :: string
  cfg_stop_untagged_instances :: string
  cfg_role_arns :: "string list"
  cfg_startTime :: string
  cfg_stopTime :: string
  cfg_account_names :: "(string \<times> string) list"

text \<open>
  Everything the script does to the outside world is an event of a trace: the calls of
  the compute API and the lines it logs. A log line is its format string; the list that
  \<^verbatim>\<open>logger.info(instance_ids)\<close> prints is \<open>LogIds\<close>.
\<close>

datatype event =
  Log string
| LogIds "string list"
| AssumeRole string
| DescribeInstances string
| StartInstances "string list"
| StopInstances "string list"

text \<open>
  The boto client (\<^verbatim>\<open>temporary_user\<close>): what each of its three calls answers.
  \<^verbatim>\<open>describe_instances\<close> raises or returns a dictionary (\<open>None\<close> stands for a falsy
  answer, on which \<^verbatim>\<open>if data:\<close> fails); \<^verbatim>\<open>start_instances\<close> and
  \<^verbatim>\<open>stop_instances\<close> raise (\<open>Some error\<close>) or return.
\<close>

record client =
  describe_instances :: "string \<Rightarrow> py_error + data option"
  start_instances :: "string list \<Rightarrow> py_error option"
  stop_instances :: "string list \<Rightarrow> py_error option"

section \<open>Strings\<close>

text \<open>Python's \<^verbatim>\<open>needle in haystack\<close> on two strings: a contiguous substring.\<close>

fun starts_with :: "string \<Rightarrow> string \<Rightarrow> bool" where
  "starts_with [] ys = True"
| "starts_with (x # xs) [] = False"
| "starts_with (x # xs) (y # ys) = (x = y \<and> starts_with xs ys)"

fun str_in :: "string \<Rightarrow> string \<Rightarrow> bool" where
  "str_in needle [] = (needle = [])"
| "str_in needle (y # ys) = (starts_with needle (y # ys) \<or> str_in needle ys)"

section \<open>The instance classifier\<close>

text \<open>
  \<^verbatim>\<open>stop_untagged_instances(untagged_instance_ids, temporary_user)\<close>: two log lines and the
  stop call; an exception of the call is caught and logged.
\<close>

definition stop_untagged_instances :: "string list \<Rightarrow> client \<Rightarrow> event list" where
  "stop_untagged_instances untagged_instance_ids temporary_user =
     [Log ''Stopping the untagged instances : '',
      LogIds untagged_instance_ids,
      StopInstances untagged_instance_ids] @
     (case stop_instances temporary_user untagged_instance_ids of
        None \<Rightarrow> []
      | Some error \<Rightarrow> [Log ''The instances failed to stop with the following error : {}''])"

text \<open>
  The local variables of \<^verbatim>\<open>categorise_instances\<close>: the three lists, the list of tag
  keys (emptied at the start of every reservation, not of every instance), and the trace
  of the calls made so far.
\<close>

record cat_state =
  action_required :: "string list"
  no_action_required :: "string list"
  untagged_instances :: "string list"
  tag_list :: "string list"
  events :: "event list"

definition init_state :: cat_state where
  "init_state = \<lparr>action_required = [], no_action_required = [], untagged_instances = [],
                 tag_list = [], events = []\<rparr>"

text \<open>
  The body of \<^verbatim>\<open>for tag in instance['Tags']\<close> in the \<^verbatim>\<open>elif 'Schedule' in tag_list\<close>
  branch (lines 68 to 74). The key is tested with \<^verbatim>\<open>in\<close> on a string, the value is
  compared with \<^verbatim>\<open>''\<close>, then \<^verbatim>\<open>allDay\<close>, then \<^verbatim>\<open>halfDay\<close>. The identifier appended
  is \<^verbatim>\<open>reservation['Instances'][0]['InstanceId']\<close>, passed here as \<open>first_id\<close>.
\<close>

definition schedule_tag :: "config \<Rightarrow> string \<Rightarrow> tag \<Rightarrow> cat_state \<Rightarrow> cat_state" where
  "schedule_tag cfg first_id t st =
     (if str_in ''Schedule'' (Key t) then
        (if Value t = [] then
           st\<lparr>no_action_required := no_action_required st @ [first_id]\<rparr>
         else if Value t = cfg_allDay cfg then
           st\<lparr>no_action_required := no_action_required st @ [first_id]\<rparr>
         else if Value t = cfg_halfDay cfg then
           st\<lparr>action_required := action_required st @ [first_id]\<rparr>
         else st)
      else st)"

fun schedule_loop :: "config \<Rightarrow> string \<Rightarrow> tag list \<Rightarrow> cat_state \<Rightarrow> cat_state" where
  "schedule_loop cfg first_id [] st = st"
| "schedule_loop cfg first_id (t # ts) st =
     schedule_loop cfg first_id ts (schedule_tag cfg first_id t st)"

text \<open>
  The body of \<^verbatim>\<open>for instance in reservation['Instances']\<close> (lines 62 to 78).
  \<^verbatim>\<open>instance['Tags']\<close> raises \<^verbatim>\<open>KeyError\<close> when the instance has no such key; the
  exception leaves the loops, so the state reached so far comes with it.
\<close>

definition categorise_instance ::
  "config \<Rightarrow> client \<Rightarrow> string \<Rightarrow> ec2_instance \<Rightarrow> cat_state \<Rightarrow> (py_error \<times> cat_state) + cat_state" where
  "categorise_instance cfg temporary_user first_id inst st =
     (case Tags inst of
        None \<Rightarrow> Inl (KeyError, st)
      | Some tags \<Rightarrow>
          (let st1 = st\<lparr>tag_list := tag_list st @ map Key tags\<rparr> in
           if ''NoShutdown'' \<in> set (tag_list st1) then
             Inr (st1\<lparr>no_action_required := no_action_required st1 @ [first_id]\<rparr>)
           else if ''Schedule'' \<in> set (tag_list st1) then
             Inr (schedule_loop cfg first_id tags st1)
           else if str_in ''True'' (cfg_stop_untagged_instances cfg) then
             (let untagged = untagged_instances st1 @ [InstanceId inst] in
              Inr (st1\<lparr>untagged_instances := untagged,
                       events := events st1 @ stop_untagged_instances untagged temporary_user\<rparr>))
           else Inr st1))"

fun instances_loop ::
  "config \<Rightarrow> client \<Rightarrow> string \<Rightarrow> ec2_instance list \<Rightarrow> cat_state \<Rightarrow> (py_error \<times> cat_state) + cat_state" where
  "instances_loop cfg temporary_user first_id [] st = Inr st"
| "instances_loop cfg temporary_user first_id (inst # insts) st =
     (case categorise_instance cfg temporary_user first_id inst st of
        Inl err \<Rightarrow> Inl err
      | Inr st' \<Rightarrow> instances_loop cfg temporary_user first_id insts st')"

text \<open>
  One reservation: \<^verbatim>\<open>tag_list = []\<close>, then the loop over its instances. The first
  instance's identifier is read only inside that loop, so only when there is one.
\<close>

definition categorise_reservation ::
  "config \<Rightarrow> client \<Rightarrow> reservation \<Rightarrow> cat_state \<Rightarrow> (py_error \<times> cat_state) + cat_state" where
  "categorise_reservation cfg temporary_user r st =
     (case Instances r of
        [] \<Rightarrow> Inr (st\<lparr>tag_list := []\<rparr>)
      | inst0 # _ \<Rightarrow>
          instances_loop cfg temporary_user (InstanceId inst0) (Instances r) (st\<lparr>tag_list := []\<rparr>))"

fun reservations_loop ::
  "config \<Rightarrow> client \<Rightarrow> reservation list \<Rightarrow> cat_state \<Rightarrow> (py_error \<times> cat_state) + cat_state" where
  "reservations_loop cfg temporary_user [] st = Inr st"
| "reservations_loop cfg temporary_user (r # rs) st =
     (case categorise_reservation cfg temporary_user r st of
        Inl err \<Rightarrow> Inl err
      | Inr st' \<Rightarrow> reservations_loop cfg temporary_user rs st')"

text \<open>
  \<^verbatim>\<open>categorise_instances(data, config, temporary_user)\<close>: the pair of lists, or
  \<^verbatim>\<open>None\<close> when \<^verbatim>\<open>data\<close> is falsy (nothing is returned) or when an exception was
  caught and logged; with it the trace of what was called and logged.
\<close>

definition categorise_instances ::
  "data option \<Rightarrow> config \<Rightarrow> client \<Rightarrow> (string list \<times> string list) option \<times> event list" where
  "categorise_instances dat cfg temporary_user =
     (case dat of
        None \<Rightarrow> (None, [])
      | Some d \<Rightarrow>
          (case reservations_loop cfg temporary_user (Reservations d) init_state of
             Inr st \<Rightarrow> (Some (action_required st, no_action_required st), events st)
           | Inl (error, st) \<Rightarrow>
               (None, events st @
                  [Log ''Categorisation of instances according to tags failed with this error : {}''])))"

section \<open>Splitting strings and reading numbers\<close>

text \<open>
  \<^verbatim>\<open>s.split(sep)\<close> for a one-character separator: the pieces between the separators,
  so \<^verbatim>\<open>''.split('x')\<close> is \<^verbatim>\<open>['']\<close>.
\<close>

fun split_on :: "char \<Rightarrow> string \<Rightarrow> string list" where
  "split_on sep [] = [[]]"
| "split_on sep (c # cs) =
     (if c = sep then [] # split_on sep cs
      else (case split_on sep cs of
              [] \<Rightarrow> [[c]]
            | w # ws \<Rightarrow> (c # w) # ws))"

text \<open>\<^verbatim>\<open>a, b = xs\<close> raises \<^verbatim>\<open>ValueError\<close> unless \<^verbatim>\<open>xs\<close> has exactly two items.\<close>

fun unpack2 :: "'a list \<Rightarrow> py_error + ('a \<times> 'a)" where
  "unpack2 [a, b] = Inr (a, b)"
| "unpack2 xs = Inl ValueError"

text \<open>
  \<^verbatim>\<open>int(s)\<close> on a string: surrounding white space is dropped, one sign is allowed, and
  the rest has to be a non-empty run of decimal digits; anything else is a
  \<^verbatim>\<open>ValueError\<close>.
\<close>

definition is_digit :: "char \<Rightarrow> bool" where
  "is_digit c \<longleftrightarrow> 48 \<le> (of_char c :: nat) \<and> (of_char c :: nat) \<le> 57"

definition is_space :: "char \<Rightarrow> bool" where
  "is_space c \<longleftrightarrow> (of_char c :: nat) = 32 \<or> (9 \<le> (of_char c :: nat) \<and> (of_char c :: nat) \<le> 13)"

definition digit_val :: "char \<Rightarrow> nat" where
  "digit_val c = (of_char c :: nat) - 48"

fun digits_value :: "nat \<Rightarrow> string \<Rightarrow> nat" where
  "digits_value acc [] = acc"
| "digits_value acc (c # cs) = digits_value (10 * acc + digit_val c) cs"

definition strip :: "string \<Rightarrow> string" where
  "strip s = rev (dropWhile is_space (rev (dropWhile is_space s)))"

definition py_int :: "string \<Rightarrow> py_error + int" where
  "py_int s =
     (let t = strip s;
          negative = (t \<noteq> [] \<and> hd t = CHR ''-'');
          signed = (t \<noteq> [] \<and> (hd t = CHR ''-'' \<or> hd t = CHR ''+''));
          ds = (if signed then tl t else t)
      in if ds \<noteq> [] \<and> list_all is_digit ds then
           Inr (if negative then - int (digits_value 0 ds) else int (digits_value 0 ds))
         else Inl ValueError)"

section \<open>The time resolver\<close>

text \<open>
  A naive \<^verbatim>\<open>datetime.datetime\<close> is its seven fields. Two of them compare as the tuples
  of their fields do, a \<^verbatim>\<open>datetime.time\<close> as the tuple of its four fields; the order on
  tuples is the lexicographic one.
\<close>

record datetime =
  dt_year :: int
  dt_month :: int
  dt_day :: int
  dt_hour :: int
  dt_minute :: int
  dt_second :: int
  dt_microsecond :: int

type_synonym time = "int \<times> int \<times> int \<times> int"

definition mk_date :: "int \<Rightarrow> int \<Rightarrow> int \<Rightarrow> datetime" where
  "mk_date y m d = \<lparr>dt_year = y, dt_month = m, dt_day = d, dt_hour = 0, dt_minute = 0,
                    dt_second = 0, dt_microsecond = 0\<rparr>"

definition dt_tuple :: "datetime \<Rightarrow> int \<times> int \<times> int \<times> int \<times> int \<times> int \<times> int" where
  "dt_tuple dt = (dt_year dt, dt_month dt, dt_day dt, dt_hour dt, dt_minute dt, dt_second dt,
                  dt_microsecond dt)"

definition time_of :: "datetime \<Rightarrow> time" where
  "time_of dt = (dt_hour dt, dt_minute dt, dt_second dt, dt_microsecond dt)"

text \<open>
  The calendar of the \<^verbatim>\<open>datetime\<close> module: proleptic Gregorian, day 1 is 0001-01-01,
  \<^verbatim>\<open>weekday()\<close> is \<^verbatim>\<open>(toordinal() + 6) % 7\<close> with Monday 0.
\<close>

definition is_leap :: "int \<Rightarrow> bool" where
  "is_leap y \<longleftrightarrow> y mod 4 = 0 \<and> (y mod 100 \<noteq> 0 \<or> y mod 400 = 0)"

definition days_in_month :: "int \<Rightarrow> int \<Rightarrow> int" where
  "days_in_month y m =
     (if m = 2 then (if is_leap y then 29 else 28)
      else if m = 4 \<or> m = 6 \<or> m = 9 \<or> m = 11 then 30 else 31)"

definition days_before_year :: "int \<Rightarrow> int" where
  "days_before_year y = (y - 1) * 365 + (y - 1) div 4 - (y - 1) div 100 + (y - 1) div 400"

definition days_before_month :: "int \<Rightarrow> int \<Rightarrow> int" where
  "days_before_month y m =
     [0, 0, 31, 59, 90, 120, 151, 181, 212, 243, 273, 304, 334] ! nat m
       + (if m > 2 \<and> is_leap y then 1 else 0)"

definition toordinal :: "datetime \<Rightarrow> int" where
  "toordinal dt = days_before_year (dt_year dt) + days_before_month (dt_year dt) (dt_month dt)
                    + dt_day dt"

definition weekday :: "datetime \<Rightarrow> int" where
  "weekday dt = (toordinal dt + 6) mod 7"

text \<open>
  \<^verbatim>\<open>dt - datetime.timedelta(days=k)\<close> moves \<open>k\<close> calendar days back and keeps the
  time of day; \<^verbatim>\<open>dt + datetime.timedelta(hours=1)\<close> moves one hour on, into the next
  day after 23 o'clock. Leaving the years 1 to 9999 is an \<^verbatim>\<open>OverflowError\<close>.
\<close>

definition prev_day :: "datetime \<Rightarrow> py_error + datetime" where
  "prev_day dt =
     (if dt_day dt > 1 then Inr (dt\<lparr>dt_day := dt_day dt - 1\<rparr>)
      else if dt_month dt > 1 then
        Inr (dt\<lparr>dt_month := dt_month dt - 1,
                dt_day := days_in_month (dt_year dt) (dt_month dt - 1)\<rparr>)
      else if dt_year dt > 1 then
        Inr (dt\<lparr>dt_year := dt_year dt - 1, dt_month := 12, dt_day := 31\<rparr>)
      else Inl OverflowError)"

fun minus_days :: "datetime \<Rightarrow> nat \<Rightarrow> py_error + datetime" where
  "minus_days dt 0 = Inr dt"
| "minus_days dt (Suc k) =
     (case prev_day dt of
        Inl error \<Rightarrow> Inl error
      | Inr dt' \<Rightarrow> minus_days dt' k)"

definition next_day :: "datetime \<Rightarrow> py_error + datetime" where
  "next_day dt =
     (if dt_day dt < days_in_month (dt_year dt) (dt_month dt) then
        Inr (dt\<lparr>dt_day := dt_day dt + 1\<rparr>)
      else if dt_month dt < 12 then Inr (dt\<lparr>dt_month := dt_month dt + 1, dt_day := 1\<rparr>)
      else if dt_year dt < 9999 then
        Inr (dt\<lparr>dt_year := dt_year dt + 1, dt_month := 1, dt_day := 1\<rparr>)
      else Inl OverflowError)"

definition plus_one_hour :: "datetime \<Rightarrow> py_error + datetime" where
  "plus_one_hour dt =
     (if dt_hour dt < 23 then Inr (dt\<lparr>dt_hour := dt_hour dt + 1\<rparr>)
      else (case next_day dt of
              Inl error \<Rightarrow> Inl error
            | Inr dt' \<Rightarrow> Inr (dt'\<lparr>dt_hour := 0\<rparr>)))"

text \<open>
  \<^verbatim>\<open>is_dst(now)\<close> (lines 142 to 159). \<^verbatim>\<open>now\<close> is naive, so
  \<^verbatim>\<open>now.replace(tzinfo=None)\<close> is \<^verbatim>\<open>now\<close>.
\<close>

definition is_dst :: "datetime \<Rightarrow> py_error + (datetime \<times> string)" where
  "is_dst now =
     (let dst_start_date = mk_date (dt_year now) 4 1;
          dst_end_date = mk_date (dt_year now) 11 1
      in case minus_days dst_start_date (nat (weekday dst_start_date + 1)) of
           Inl error \<Rightarrow> Inl error
         | Inr dston \<Rightarrow>
             (case minus_days dst_end_date (nat (weekday dst_end_date + 1)) of
                Inl error \<Rightarrow> Inl error
              | Inr dstoff \<Rightarrow>
                  (if dt_tuple dston \<le> dt_tuple now \<and> dt_tuple now < dt_tuple dstoff then
                     (case plus_one_hour now of
                        Inl error \<Rightarrow> Inl error
                      | Inr later \<Rightarrow> Inr (later, ''GMT +1''))
                   else Inr (now, ''GMT''))))"

text \<open>\<^verbatim>\<open>datetime.time(hour, minute)\<close> checks the ranges of its arguments.\<close>

definition py_time :: "int \<Rightarrow> int \<Rightarrow> py_error + time" where
  "py_time h m =
     (if 0 \<le> h \<and> h \<le> 23 \<and> 0 \<le> m \<and> m \<le> 59 then Inr (h, m, 0, 0) else Inl ValueError)"

definition parse_clock :: "string \<Rightarrow> py_error + time" where
  "parse_clock s =
     (case unpack2 (split_on CHR '','' s) of
        Inl error \<Rightarrow> Inl error
      | Inr (hour_str, minute_str) \<Rightarrow>
          (case py_int hour_str of
             Inl error \<Rightarrow> Inl error
           | Inr h \<Rightarrow>
               (case py_int minute_str of
                  Inl error \<Rightarrow> Inl error
                | Inr m \<Rightarrow> py_time h m)))"

text \<open>
  \<^verbatim>\<open>convert_to_datetime(config)\<close> (lines 122 to 140), called with
  \<^verbatim>\<open>config['times']\<close>; \<open>current\<close> is what \<^verbatim>\<open>datetime.datetime.now()\<close> reads.
  Any exception is logged and the function returns \<^verbatim>\<open>None\<close>, whichever of the
  splits, conversions and constructions raised it; \<open>parse_clock\<close> is the reading of one
  \<^verbatim>\<open>"H,M"\<close> string.
\<close>

definition convert_to_datetime ::
  "datetime \<Rightarrow> config \<Rightarrow> (time \<times> time \<times> datetime \<times> string) option \<times> event list" where
  "convert_to_datetime current cfg =
     (case is_dst current of
        Inl error \<Rightarrow>
          (None, [Log ''Converting config values to time objects failed with the following error : {}''])
      | Inr (now, tz) \<Rightarrow>
          (case parse_clock (cfg_startTime cfg) of
             Inl error \<Rightarrow>
               (None, [Log ''Converting config values to time objects failed with the following error : {}''])
           | Inr start_up_time \<Rightarrow>
               (case parse_clock (cfg_stopTime cfg) of
                  Inl error \<Rightarrow>
                    (None, [Log ''Converting config values to time objects failed with the following error : {}''])
                | Inr stop_time \<Rightarrow> (Some (start_up_time, stop_time, now, tz), []))))"

text \<open>\<^verbatim>\<open>is_weekday(day, halfDay)\<close> (lines 196 to 209).\<close>

definition is_weekday :: "int \<Rightarrow> string \<Rightarrow> py_error + bool" where
  "is_weekday day halfDay =
     (case unpack2 (split_on CHR ''x'' halfDay) of
        Inl error \<Rightarrow> Inl error
      | Inr (hours, days) \<Rightarrow>
          (case py_int days of
             Inl error \<Rightarrow> Inl error
           | Inr n \<Rightarrow> Inr (day \<le> n - 1)))"

section \<open>The dispatcher\<close>

text \<open>
  A bound method of the client (\<^verbatim>\<open>temporary_user.start_instances\<close>) is the event its
  call leaves in the trace together with what the call answers.
\<close>

type_synonym client_method = "(string list \<Rightarrow> event) \<times> (string list \<Rightarrow> py_error option)"

definition start_method :: "client \<Rightarrow> client_method" where
  "start_method temporary_user = (StartInstances, start_instances temporary_user)"

definition stop_method :: "client \<Rightarrow> client_method" where
  "stop_method temporary_user = (StopInstances, stop_instances temporary_user)"

text \<open>
  \<^verbatim>\<open>action_on_instances(client_method, instance_ids, action)\<close> (lines 11 to 30). The
  double quotes inside the three explanatory log lines are left out.
\<close>

definition action_on_instances :: "client_method \<Rightarrow> string list \<Rightarrow> string \<Rightarrow> event list" where
  "action_on_instances client_method instance_ids action =
     (if instance_ids \<noteq> [] then
        [Log (action @ ''ing the following instances''),
         LogIds instance_ids,
         fst client_method instance_ids] @
        (case snd client_method instance_ids of
           None \<Rightarrow> [Log (action @ '' has finished successfully'')]
         | Some error \<Rightarrow> [Log (action @ '' failed with the following output : {}'')])
      else
        [Log ''No action was taken because one of the following:'',
         Log ''1 - Instances have NoShutdown flag.'',
         Log ''2 - Instances do not have Schedule tag.'',
         Log ''3 - Instances have no value in Schedule tag.''])"

text \<open>
  \<^verbatim>\<open>get_instance_ids(temporary_user, config, state, now, tz)\<close> (lines 85 to 102).
  \<^verbatim>\<open>temporary_user\<close> is \<^verbatim>\<open>None\<close> when \<^verbatim>\<open>create_temp_user\<close> failed; calling a method
  of it raises. Unpacking the \<^verbatim>\<open>None\<close> that \<^verbatim>\<open>categorise_instances\<close> returned raises
  too; the \<^verbatim>\<open>try\<close> of this function encloses both, logs, and the function returns
  \<^verbatim>\<open>None\<close> itself.
\<close>

definition get_instance_ids ::
  "client option \<Rightarrow> config \<Rightarrow> string \<Rightarrow> datetime \<Rightarrow> string
     \<Rightarrow> (string list \<times> string list) option \<times> event list" where
  "get_instance_ids temporary_user cfg state now tz =
     (case temporary_user of
        None \<Rightarrow> (None, [Log ''Describing the instances failed with the following error : {}''])
      | Some user \<Rightarrow>
          (case describe_instances user state of
             Inl error \<Rightarrow>
               (None, [DescribeInstances state,
                       Log ''Describing the instances failed with the following error : {}''])
           | Inr dat \<Rightarrow>
               (case categorise_instances dat cfg user of
                  (None, evs) \<Rightarrow>
                    (None, [DescribeInstances state, Log ''The date is : {} , {}''] @ evs @
                           [Log ''Describing the instances failed with the following error : {}''])
                | (Some (action_required_ids, no_action_required_ids), evs) \<Rightarrow>
                    (Some (action_required_ids, no_action_required_ids),
                     [DescribeInstances state, Log ''The date is : {} , {}''] @ evs))))"

text \<open>
  \<^verbatim>\<open>start_stop(now, start, stop, temporary_user, config, tz)\<close> (lines 104 to 120). It
  has no \<^verbatim>\<open>try\<close>: unpacking a \<^verbatim>\<open>None\<close> from \<^verbatim>\<open>get_instance_ids\<close> is a
  \<^verbatim>\<open>TypeError\<close> that leaves the function (\<open>Some TypeError\<close>).
\<close>

definition start_stop ::
  "datetime \<Rightarrow> time \<Rightarrow> time \<Rightarrow> client option \<Rightarrow> config \<Rightarrow> string
     \<Rightarrow> py_error option \<times> event list" where
  "start_stop now start stop temporary_user cfg tz =
     (if time_of now \<ge> start \<and> time_of now < stop then
        (case get_instance_ids temporary_user cfg ''stopped'' now tz of
           (None, evs) \<Rightarrow> (Some TypeError, evs)
         | (Some (action_required_ids, no_action_required_ids), evs) \<Rightarrow>
             (case temporary_user of
                None \<Rightarrow> (Some AttributeError, evs)
              | Some user \<Rightarrow>
                  (None, evs @ action_on_instances (start_method user) action_required_ids ''Start'')))
      else if time_of now \<ge> stop then
        (case get_instance_ids temporary_user cfg ''running'' now tz of
           (None, evs) \<Rightarrow> (Some TypeError, evs)
         | (Some (action_required_ids, no_action_required_ids), evs) \<Rightarrow>
             (case temporary_user of
                None \<Rightarrow> (Some AttributeError, evs)
              | Some user \<Rightarrow>
                  (None, evs @ action_on_instances (stop_method user) action_required_ids ''Stop'')))
      else (None, []))"

section \<open>The entry point\<close>

text \<open>
  What one invocation finds outside: the weekday of \<^verbatim>\<open>datetime.datetime.now()\<close>, the
  configuration that \<^verbatim>\<open>fetch_config_from_s3(assume_role())\<close> returns (\<^verbatim>\<open>None\<close> after a
  logged failure), the clock reading while an account is processed, and the client that
  \<^verbatim>\<open>create_temp_user\<close> obtains for a role (\<^verbatim>\<open>None\<close> after a logged failure).
\<close>

record env =
  env_weekday :: int
  env_config :: "config option"
  env_now :: "string \<Rightarrow> datetime"
  env_temp_user :: "string \<Rightarrow> client option"

definition create_temp_user :: "env \<Rightarrow> string \<Rightarrow> client option \<times> event list" where
  "create_temp_user e role_arn =
     (case env_temp_user e role_arn of
        None \<Rightarrow>
          (None, [AssumeRole role_arn,
                  Log ''Creating a temporary ec2 privileged user failed with the following error : {}''])
      | Some ec2_user \<Rightarrow> (Some ec2_user, [AssumeRole role_arn]))"

text \<open>
  The body of \<^verbatim>\<open>for role_arn in config['role_arns']\<close> (lines 257 to 262): \<open>Some error\<close>
  is the exception that leaves it.
\<close>

definition process_account :: "env \<Rightarrow> config \<Rightarrow> string \<Rightarrow> py_error option \<times> event list" where
  "process_account e cfg role_arn =
     (let parts = split_on CHR '':'' role_arn in
      if length parts \<le> 4 then (Some IndexError, [])
      else
        (let account_number = parts ! 4 in
         case create_temp_user e role_arn of
           (ec2_user, evs1) \<Rightarrow>
             (case convert_to_datetime (env_now e role_arn) cfg of
                (None, evs2) \<Rightarrow> (Some TypeError, evs1 @ evs2)
              | (Some (start_up_time, stop_time, now, tz), evs2) \<Rightarrow>
                  (case map_of (cfg_account_names cfg) account_number of
                     None \<Rightarrow> (Some KeyError, evs1 @ evs2)
                   | Some account_name \<Rightarrow>
                       (case start_stop now start_up_time stop_time ec2_user cfg tz of
                          (result, evs3) \<Rightarrow>
                            (result,
                             evs1 @ evs2 @ [Log ''Lambda started for account : {}''] @ evs3))))))"

fun accounts_loop :: "env \<Rightarrow> config \<Rightarrow> string list \<Rightarrow> py_error option \<times> event list" where
  "accounts_loop e cfg [] = (None, [])"
| "accounts_loop e cfg (role_arn # role_arns) =
     (case process_account e cfg role_arn of
        (Some error, evs) \<Rightarrow> (Some error, evs)
      | (None, evs) \<Rightarrow>
          (case accounts_loop e cfg role_arns of
             (result, evs') \<Rightarrow> (result, evs @ evs')))"

text \<open>
  \<^verbatim>\<open>lambda_handler(event, context)\<close> (lines 243 to 266): the trace of one invocation.
  Its \<^verbatim>\<open>try\<close> encloses everything and catches every exception, so the function always
  returns. Subscripting a \<^verbatim>\<open>None\<close> configuration raises; \<^verbatim>\<open>print config\<close> is not
  part of the trace.
\<close>

definition lambda_handler :: "env \<Rightarrow> event list" where
  "lambda_handler e =
     (case env_config e of
        None \<Rightarrow> [Log ''Lambda failed to run with the following error : {}'']
      | Some cfg \<Rightarrow>
          (case is_weekday (env_weekday e) (cfg_halfDay cfg) of
             Inl error \<Rightarrow> [Log ''Lambda failed to run with the following error : {}'']
           | Inr True \<Rightarrow>
               (case accounts_loop e cfg (cfg_role_arns cfg) of
                  (None, evs) \<Rightarrow> evs
                | (Some error, evs) \<Rightarrow>
                    evs @ [Log ''Lambda failed to run with the following error : {}''])
           | Inr False \<Rightarrow> [Log ''I do not operate on weekends.'']))"

section \<open>Notions used to state the properties\<close>

text \<open>
  The state in which a loop of the classifier stops, whether it ran to its end or an
  exception left it.
\<close>

definition final_state :: "(py_error \<times> cat_state) + cat_state \<Rightarrow> cat_state" where
  "final_state res = (case res of Inl (error, st) \<Rightarrow> st | Inr st \<Rightarrow> st)"

text \<open>
  Which tags of an instance the \<^verbatim>\<open>Schedule\<close> branch counts for \<^verbatim>\<open>no_action_required\<close>
  and which for \<^verbatim>\<open>action_required\<close>: the key contains \<^verbatim>\<open>Schedule\<close>, and the value is
  empty or \<^verbatim>\<open>allDay\<close>, or it is neither and is \<^verbatim>\<open>halfDay\<close>.
\<close>

definition to_no_action :: "config \<Rightarrow> tag \<Rightarrow> bool" where
  "to_no_action cfg t \<longleftrightarrow>
     str_in ''Schedule'' (Key t) \<and> (Value t = [] \<or> Value t = cfg_allDay cfg)"

definition to_action :: "config \<Rightarrow> tag \<Rightarrow> bool" where
  "to_action cfg t \<longleftrightarrow>
     str_in ''Schedule'' (Key t) \<and> Value t \<noteq> [] \<and> Value t \<noteq> cfg_allDay cfg
       \<and> Value t = cfg_halfDay cfg"

definition schedule_tags :: "ec2_instance \<Rightarrow> tag list" where
  "schedule_tags inst =
     (case Tags inst of
        None \<Rightarrow> []
      | Some tags \<Rightarrow> filter (\<lambda>t. str_in ''Schedule'' (Key t)) tags)"


definition all_ids :: "reservation list \<Rightarrow> string list" where
  "all_ids rs = map InstanceId (concat (map Instances rs))"

definition ids_of :: "cat_state \<Rightarrow> string set" where
  "ids_of st =
     set (action_required st) \<union> set (no_action_required st) \<union> set (untagged_instances st)"

definition disjoint3 :: "cat_state \<Rightarrow> bool" where
  "disjoint3 st \<longleftrightarrow>
     set (action_required st) \<inter> set (no_action_required st) = {} \<and>
     set (action_required st) \<inter> set (untagged_instances st) = {} \<and>
     set (no_action_required st) \<inter> set (untagged_instances st) = {}"

text \<open>The calls of each kind in a trace, in the order in which they were made.\<close>

fun stop_calls :: "event list \<Rightarrow> string list list" where
  "stop_calls [] = []"
| "stop_calls (StopInstances ids # evs) = ids # stop_calls evs"
| "stop_calls (ev # evs) = stop_calls evs"

fun start_calls :: "event list \<Rightarrow> string list list" where
  "start_calls [] = []"
| "start_calls (StartInstances ids # evs) = ids # start_calls evs"
| "start_calls (ev # evs) = start_calls evs"

fun describe_calls :: "event list \<Rightarrow> string list" where
  "describe_calls [] = []"
| "describe_calls (DescribeInstances state # evs) = state # describe_calls evs"
| "describe_calls (ev # evs) = describe_calls evs"

text \<open>
  A \<^verbatim>\<open>datetime\<close> whose fields are in range, and the number of hours between the start
  of the calendar and it; they say what "one hour later" means.
\<close>

definition valid_datetime :: "datetime \<Rightarrow> bool" where
  "valid_datetime dt \<longleftrightarrow>
     1 \<le> dt_year dt \<and> dt_year dt \<le> 9999 \<and> 1 \<le> dt_month dt \<and> dt_month dt \<le> 12 \<and>
     1 \<le> dt_day dt \<and> dt_day dt \<le> days_in_month (dt_year dt) (dt_month dt) \<and>
     0 \<le> dt_hour dt \<and> dt_hour dt \<le> 23"

definition hours_count :: "datetime \<Rightarrow> int" where
  "hours_count dt = toordinal dt * 24 + dt_hour dt"

text \<open>
  The daylight-saving rule in the words of the specification, to compare with
  \<open>is_dst\<close>: the window runs from the most recent Monday on or before April 1 to the
  most recent Monday on or before November 1, and the label inside it is
  \<^verbatim>\<open>GMT+1\<close>.
\<close>

definition is_dst_as_specified :: "datetime \<Rightarrow> py_error + (datetime \<times> string)" where
  "is_dst_as_specified now =
     (let april_1 = mk_date (dt_year now) 4 1;
          november_1 = mk_date (dt_year now) 11 1
      in case minus_days april_1 (nat (weekday april_1)) of
           Inl error \<Rightarrow> Inl error
         | Inr monday_start \<Rightarrow>
             (case minus_days november_1 (nat (weekday november_1)) of
                Inl error \<Rightarrow> Inl error
              | Inr monday_end \<Rightarrow>
                  (if dt_tuple monday_start \<le> dt_tuple now \<and> dt_tuple now < dt_tuple monday_end then
                     (case plus_one_hour now of
                        Inl error \<Rightarrow> Inl error
                      | Inr later \<Rightarrow> Inr (later, ''GMT+1''))
                   else Inr (now, ''GMT''))))"

section \<open>Example data\<close>

definition mk_tag :: "string \<Rightarrow> string \<Rightarrow> tag" where
  "mk_tag k v = \<lparr>Key = k, Value = v\<rparr>"

definition mk_instance :: "string \<Rightarrow> tag list \<Rightarrow> ec2_instance" where
  "mk_instance i ts = \<lparr>InstanceId = i, Tags = Some ts\<rparr>"

definition snapshot :: "ec2_instance list list \<Rightarrow> data" where
  "snapshot groups = \<lparr>Reservations = map (\<lambda>insts. \<lparr>Instances = insts\<rparr>) groups\<rparr>"

definition mk_datetime :: "int \<Rightarrow> int \<Rightarrow> int \<Rightarrow> int \<Rightarrow> int \<Rightarrow> datetime" where
  "mk_datetime y m d h mi = \<lparr>dt_year = y, dt_month = m, dt_day = d, dt_hour = h, dt_minute = mi,
                              dt_second = 0, dt_microsecond = 0\<rparr>"

definition quiet_client :: client where
  "quiet_client = \<lparr>describe_instances = (\<lambda>state. Inr (Some (snapshot []))),
                    start_instances = (\<lambda>ids. None), stop_instances = (\<lambda>ids. None)\<rparr>"

definition example_config :: config where
  "example_config = \<lparr>cfg_allDay = ''24x7'', cfg_halfDay = ''12x5'',
     cfg_stop_untagged_instances = ''True'',
     cfg_role_arns = [''arn:aws:iam::111111111111:role/StartStop'',
                      ''arn:aws:iam::222222222222:role/StartStop''],
     cfg_startTime = ''7,0'', cfg_stopTime = ''19,0'',
     cfg_account_names = [(''111111111111'', ''dev''), (''222222222222'', ''test'')]\<rparr>"

definition untagged_snapshot :: data where
  "untagged_snapshot = \<lparr>Reservations = [\<lparr>Instances = [\<lparr>InstanceId = ''i-c'', Tags = None\<rparr>]\<rparr>]\<rparr>"

definition bare_client :: client where
  "bare_client = \<lparr>describe_instances = (\<lambda>state. Inr (Some untagged_snapshot)),
                   start_instances = (\<lambda>ids. None), stop_instances = (\<lambda>ids. None)\<rparr>"

definition example_env :: env where
  "example_env = \<lparr>env_weekday = 0, env_config = Some example_config,
                   env_now = (\<lambda>role_arn. mk_datetime 2024 1 15 8 0),
                   env_temp_user = (\<lambda>role_arn. Some bare_client)\<rparr>"


section \<open>The classifier: what each branch does\<close>

lemmas fixture_defs = mk_tag_def mk_instance_def snapshot_def quiet_client_def
  example_config_def
lemmas classifier_defs = Let_def categorise_instances_def categorise_reservation_def
  categorise_instance_def schedule_tag_def init_state_def stop_untagged_instances_def

lemma schedule_loop_append:
  "schedule_loop cfg f (xs @ ys) st = schedule_loop cfg f ys (schedule_loop cfg f xs st)"
  by (induction xs arbitrary: st) simp_all

lemma schedule_tag_frame:
  "tag_list (schedule_tag cfg f t st) = tag_list st"
  "untagged_instances (schedule_tag cfg f t st) = untagged_instances st"
  "events (schedule_tag cfg f t st) = events st"
  by (simp_all add: schedule_tag_def)

lemma schedule_loop_frame:
  "tag_list (schedule_loop cfg f ts st) = tag_list st"
  "untagged_instances (schedule_loop cfg f ts st) = untagged_instances st"
  "events (schedule_loop cfg f ts st) = events st"
  by (induction ts arbitrary: st) (simp_all add: schedule_tag_frame)

lemma schedule_loop_action:
  "action_required (schedule_loop cfg f ts st) =
     action_required st @ replicate (length (filter (to_action cfg) ts)) f"
  by (induction ts arbitrary: st) (auto simp: schedule_tag_def to_action_def)

lemma schedule_loop_no_action:
  "no_action_required (schedule_loop cfg f ts st) =
     no_action_required st @ replicate (length (filter (to_no_action cfg) ts)) f"
  by (induction ts arbitrary: st) (auto simp: schedule_tag_def to_no_action_def)

lemma categorise_instance_no_tags:
  assumes "Tags inst = None"
  shows "categorise_instance cfg user first_id inst st = Inl (KeyError, st)"
  using assms by (simp add: categorise_instance_def)

lemma categorise_instance_noshutdown:
  assumes "Tags inst = Some tags"
    and "''NoShutdown'' \<in> set (tag_list st) \<union> Key ` set tags"
  shows "categorise_instance cfg user first_id inst st =
     Inr (st\<lparr>tag_list := tag_list st @ map Key tags,
             no_action_required := no_action_required st @ [first_id]\<rparr>)"
  using assms by (auto simp: categorise_instance_def Let_def)

lemma categorise_instance_schedule:
  assumes "Tags inst = Some tags"
    and "''NoShutdown'' \<notin> set (tag_list st) \<union> Key ` set tags"
    and "''Schedule'' \<in> set (tag_list st) \<union> Key ` set tags"
  shows "categorise_instance cfg user first_id inst st =
     Inr (schedule_loop cfg first_id tags (st\<lparr>tag_list := tag_list st @ map Key tags\<rparr>))"
  using assms by (auto simp: categorise_instance_def Let_def)

lemma categorise_instance_untagged:
  assumes "Tags inst = Some tags"
    and "''NoShutdown'' \<notin> set (tag_list st) \<union> Key ` set tags"
    and "''Schedule'' \<notin> set (tag_list st) \<union> Key ` set tags"
  shows "categorise_instance cfg user first_id inst st =
     (if str_in ''True'' (cfg_stop_untagged_instances cfg) then
        Inr (st\<lparr>tag_list := tag_list st @ map Key tags,
                untagged_instances := untagged_instances st @ [InstanceId inst],
                events := events st @
                  stop_untagged_instances (untagged_instances st @ [InstanceId inst]) user\<rparr>)
      else Inr (st\<lparr>tag_list := tag_list st @ map Key tags\<rparr>))"
  using assms by (auto simp: categorise_instance_def Let_def)

lemma stop_untagged_instances_calls:
  "stop_calls (stop_untagged_instances ids user) = [ids]"
  "start_calls (stop_untagged_instances ids user) = []"
  "describe_calls (stop_untagged_instances ids user) = []"
  by (simp_all add: stop_untagged_instances_def split: option.splits)

lemma final_state_simps:
  "final_state (Inl (error, st)) = st"
  "final_state (Inr st) = st"
  by (simp_all add: final_state_def)

section \<open>The Schedule branch\<close>

text \<open>
  Claim C1, as amended. Take an instance that carries a tag list in which one tag \<open>t\<close> has
  the key \<^verbatim>\<open>Schedule\<close>, and let the tag keys collected for its reservation so far, its
  own included, not contain \<^verbatim>\<open>NoShutdown\<close>. Then the classifier inspects \<open>t\<close> after
  the tags before it and before the tags after it, and at \<open>t\<close>: an empty value or a
  value equal to \<^verbatim>\<open>allDay\<close> appends the first identifier of the reservation to
  \<^verbatim>\<open>no_action_required\<close>; a value equal to \<^verbatim>\<open>halfDay\<close> that is neither of these
  appends it to \<^verbatim>\<open>action_required\<close>; any other value appends nothing to either list.
\<close>

theorem schedule_value_decides:
  assumes "Tags inst = Some (pre @ t # post)"
    and "Key t = ''Schedule''"
    and "''NoShutdown'' \<notin> set (tag_list st) \<union> Key ` set (pre @ t # post)"
  shows "categorise_instance cfg user first_id inst st =
     Inr (schedule_loop cfg first_id post
       (let st1 = schedule_loop cfg first_id pre
                    (st\<lparr>tag_list := tag_list st @ map Key (pre @ t # post)\<rparr>)
        in if Value t = [] \<or> Value t = cfg_allDay cfg then
             st1\<lparr>no_action_required := no_action_required st1 @ [first_id]\<rparr>
           else if Value t = cfg_halfDay cfg then
             st1\<lparr>action_required := action_required st1 @ [first_id]\<rparr>
           else st1))"
proof -
  define st0 where "st0 = st\<lparr>tag_list := tag_list st @ map Key (pre @ t # post)\<rparr>"
  have sc: "''Schedule'' \<in> set (tag_list st) \<union> Key ` set (pre @ t # post)"
    using assms(2) by auto
  have key: "str_in ''Schedule'' (Key t)"
    using assms(2) by simp
  have step: "schedule_tag cfg first_id t s =
      (if Value t = [] \<or> Value t = cfg_allDay cfg then
         s\<lparr>no_action_required := no_action_required s @ [first_id]\<rparr>
       else if Value t = cfg_halfDay cfg then
         s\<lparr>action_required := action_required s @ [first_id]\<rparr>
       else s)" for s
    using key by (simp add: schedule_tag_def)
  have loop: "schedule_loop cfg first_id (pre @ t # post) st0 =
      schedule_loop cfg first_id post
        (schedule_tag cfg first_id t (schedule_loop cfg first_id pre st0))"
    by (simp add: schedule_loop_append)
  have res: "categorise_instance cfg user first_id inst st =
      Inr (schedule_loop cfg first_id post
        (schedule_tag cfg first_id t (schedule_loop cfg first_id pre st0)))"
    unfolding categorise_instance_schedule [OF assms(1) assms(3) sc] st0_def [symmetric]
    by (simp only: loop)
  show ?thesis
    unfolding Let_def st0_def [symmetric] res step by (rule refl)
qed

text \<open>The theorem at an instance tagged \<^verbatim>\<open>Name=web\<close>, \<^verbatim>\<open>Schedule=12x5\<close>.\<close>

theorem schedule_value_decides_witness:
  "Tags (mk_instance ''i-a'' [mk_tag ''Name'' ''web'', mk_tag ''Schedule'' ''12x5''])
      = Some ([mk_tag ''Name'' ''web''] @ mk_tag ''Schedule'' ''12x5'' # []) \<and>
   Key (mk_tag ''Schedule'' ''12x5'') = ''Schedule'' \<and>
   ''NoShutdown'' \<notin> set (tag_list init_state)
      \<union> Key ` set ([mk_tag ''Name'' ''web''] @ mk_tag ''Schedule'' ''12x5'' # []) \<and>
   categorise_instance example_config quiet_client ''i-a''
      (mk_instance ''i-a'' [mk_tag ''Name'' ''web'', mk_tag ''Schedule'' ''12x5'']) init_state
    = Inr (init_state\<lparr>tag_list := [''Name'', ''Schedule''], action_required := [''i-a'']\<rparr>)"
proof -
  have h1: "Tags (mk_instance ''i-a'' [mk_tag ''Name'' ''web'', mk_tag ''Schedule'' ''12x5''])
      = Some ([mk_tag ''Name'' ''web''] @ mk_tag ''Schedule'' ''12x5'' # [])"
    by (simp add: mk_instance_def)
  have h2: "Key (mk_tag ''Schedule'' ''12x5'') = ''Schedule''"
    by (simp add: mk_tag_def)
  have h3: "''NoShutdown'' \<notin> set (tag_list init_state)
      \<union> Key ` set ([mk_tag ''Name'' ''web''] @ mk_tag ''Schedule'' ''12x5'' # [])"
    by (simp add: mk_tag_def init_state_def)
  show ?thesis
    using h1 h2 h3 schedule_value_decides [OF h1 h2 h3, of example_config quiet_client "''i-a''"]
    by (simp add: mk_tag_def init_state_def example_config_def schedule_tag_def Let_def)
qed

text \<open>
  As the claim is worded, a value equal to \<^verbatim>\<open>halfDay\<close> always reaches
  \<^verbatim>\<open>action_required\<close>. With a configuration in which \<^verbatim>\<open>allDay\<close> and \<^verbatim>\<open>halfDay\<close>
  are the same string it does not: the comparison with \<^verbatim>\<open>allDay\<close> comes first.
\<close>

theorem halfDay_value_shadowed:
  "Value (mk_tag ''Schedule'' ''12x5'') = cfg_halfDay (example_config\<lparr>cfg_allDay := ''12x5''\<rparr>) \<and>
   categorise_instances (Some (snapshot [[mk_instance ''i-a'' [mk_tag ''Schedule'' ''12x5'']]]))
     (example_config\<lparr>cfg_allDay := ''12x5''\<rparr>) quiet_client = (Some ([], [''i-a'']), [])"
  by (simp add: fixture_defs classifier_defs)

text \<open>
  Claim C10. When the tag keys of an instance include \<^verbatim>\<open>Schedule\<close> (and
  \<^verbatim>\<open>NoShutdown\<close> is not among the keys collected for the reservation), the classifier
  looks at every tag of the instance whose key contains \<^verbatim>\<open>Schedule\<close> as a substring and
  appends the first identifier once for each such tag whose value is empty, \<^verbatim>\<open>allDay\<close>
  or \<^verbatim>\<open>halfDay\<close>. An instance tagged \<^verbatim>\<open>Schedule=12x5\<close> and
  \<^verbatim>\<open>ScheduleOverride=24x7\<close> so has its identifier in both lists after one pass.
\<close>

theorem schedule_substring_keys:
  assumes "''Schedule'' \<in> Key ` set tags"
    and "''NoShutdown'' \<notin> set (tag_list st) \<union> Key ` set tags"
  shows "(\<exists>st'. categorise_instance cfg user first_id \<lparr>InstanceId = i, Tags = Some tags\<rparr> st = Inr st' \<and>
       action_required st' =
         action_required st @ replicate (length (filter (to_action cfg) tags)) first_id \<and>
       no_action_required st' =
         no_action_required st @ replicate (length (filter (to_no_action cfg) tags)) first_id) \<and>
     categorise_instances
       (Some (snapshot [[mk_instance ''i-a'' [mk_tag ''Schedule'' ''12x5'',
                                               mk_tag ''ScheduleOverride'' ''24x7'']]]))
       example_config quiet_client = (Some ([''i-a''], [''i-a'']), [])"
proof -
  define st0 where "st0 = st\<lparr>tag_list := tag_list st @ map Key tags\<rparr>"
  have sc: "''Schedule'' \<in> set (tag_list st) \<union> Key ` set tags"
    using assms(1) by simp
  have res: "categorise_instance cfg user first_id \<lparr>InstanceId = i, Tags = Some tags\<rparr> st =
      Inr (schedule_loop cfg first_id tags st0)"
    unfolding st0_def by (rule categorise_instance_schedule [OF _ assms(2) sc]) simp
  have lists: "action_required st0 = action_required st" "no_action_required st0 = no_action_required st"
    by (simp_all add: st0_def)
  have general: "\<exists>st'. categorise_instance cfg user first_id \<lparr>InstanceId = i, Tags = Some tags\<rparr> st = Inr st' \<and>
       action_required st' =
         action_required st @ replicate (length (filter (to_action cfg) tags)) first_id \<and>
       no_action_required st' =
         no_action_required st @ replicate (length (filter (to_no_action cfg) tags)) first_id"
    using res by (simp add: schedule_loop_action schedule_loop_no_action lists)
  have example: "categorise_instances
       (Some (snapshot [[mk_instance ''i-a'' [mk_tag ''Schedule'' ''12x5'',
                                               mk_tag ''ScheduleOverride'' ''24x7'']]]))
       example_config quiet_client = (Some ([''i-a''], [''i-a'']), [])"
    by (simp add: fixture_defs classifier_defs)
  from general example show ?thesis by (rule conjI)
qed

text \<open>The general part of the theorem at that instance.\<close>

theorem schedule_substring_keys_witness:
  "''Schedule'' \<in> Key ` set [mk_tag ''Schedule'' ''12x5'', mk_tag ''ScheduleOverride'' ''24x7''] \<and>
   ''NoShutdown'' \<notin> set (tag_list init_state)
      \<union> Key ` set [mk_tag ''Schedule'' ''12x5'', mk_tag ''ScheduleOverride'' ''24x7''] \<and>
   filter (to_action example_config) [mk_tag ''Schedule'' ''12x5'', mk_tag ''ScheduleOverride'' ''24x7'']
      = [mk_tag ''Schedule'' ''12x5''] \<and>
   filter (to_no_action example_config) [mk_tag ''Schedule'' ''12x5'', mk_tag ''ScheduleOverride'' ''24x7'']
      = [mk_tag ''ScheduleOverride'' ''24x7''] \<and>
   (\<exists>st'. categorise_instance example_config quiet_client ''i-a''
        \<lparr>InstanceId = ''i-a'',
           Tags = Some [mk_tag ''Schedule'' ''12x5'', mk_tag ''ScheduleOverride'' ''24x7'']\<rparr>
        init_state = Inr st' \<and>
      action_required st' = [''i-a''] \<and> no_action_required st' = [''i-a''])"
proof -
  have h1: "''Schedule'' \<in> Key ` set [mk_tag ''Schedule'' ''12x5'', mk_tag ''ScheduleOverride'' ''24x7'']"
    by (simp add: mk_tag_def)
  have h2: "''NoShutdown'' \<notin> set (tag_list init_state)
      \<union> Key ` set [mk_tag ''Schedule'' ''12x5'', mk_tag ''ScheduleOverride'' ''24x7'']"
    by (simp add: mk_tag_def init_state_def)
  have f1: "filter (to_action example_config)
      [mk_tag ''Schedule'' ''12x5'', mk_tag ''ScheduleOverride'' ''24x7''] = [mk_tag ''Schedule'' ''12x5'']"
    by (simp add: to_action_def mk_tag_def example_config_def)
  have f2: "filter (to_no_action example_config)
      [mk_tag ''Schedule'' ''12x5'', mk_tag ''ScheduleOverride'' ''24x7'']
      = [mk_tag ''ScheduleOverride'' ''24x7'']"
    by (simp add: to_no_action_def mk_tag_def example_config_def)
  have lists: "action_required init_state = []" "no_action_required init_state = []"
    by (simp_all add: init_state_def)
  from schedule_substring_keys [OF h1 h2, of example_config quiet_client "''i-a''" "''i-a''"]
  have "\<exists>st'. categorise_instance example_config quiet_client ''i-a''
        \<lparr>InstanceId = ''i-a'',
           Tags = Some [mk_tag ''Schedule'' ''12x5'', mk_tag ''ScheduleOverride'' ''24x7'']\<rparr>
        init_state = Inr st' \<and>
      action_required st' = [''i-a''] \<and> no_action_required st' = [''i-a'']"
    unfolding f1 f2 lists by simp
  with h1 h2 f1 f2 show ?thesis
    by (intro conjI)
qed

section \<open>The NoShutdown branch\<close>

text \<open>
  Claim C2 says that every instance tagged \<^verbatim>\<open>NoShutdown\<close> has its identifier in
  \<^verbatim>\<open>no_action_required\<close> and in no other list. The classifier appends
  \<^verbatim>\<open>reservation['Instances'][0]['InstanceId']\<close> instead of the identifier of the
  instance at hand. In a reservation of \<^verbatim>\<open>i-a\<close> (tagged \<^verbatim>\<open>Schedule=12x5\<close>) and
  \<^verbatim>\<open>i-b\<close> (tagged \<^verbatim>\<open>NoShutdown\<close>) the identifier \<^verbatim>\<open>i-b\<close> reaches no list, and
  \<^verbatim>\<open>i-a\<close> is in both.
\<close>

theorem noshutdown_on_second_instance:
  "categorise_instances
     (Some (snapshot [[mk_instance ''i-a'' [mk_tag ''Schedule'' ''12x5''],
                       mk_instance ''i-b'' [mk_tag ''NoShutdown'' ''true'']]]))
     example_config quiet_client = (Some ([''i-a''], [''i-a'']), [])"
  by (simp add: fixture_defs classifier_defs)

section \<open>Untagged instances\<close>

text \<open>
  Claim C6, as amended. Let the first instance of a reservation carry a tag list with
  neither the key \<^verbatim>\<open>NoShutdown\<close> nor the key \<^verbatim>\<open>Schedule\<close>. If
  \<^verbatim>\<open>stop_untagged_instances\<close> of the configuration contains \<^verbatim>\<open>True\<close> as a substring,
  the classifier adds the identifier of the instance to the untagged list and at once, before
  it turns to the next instance, issues one stop call with the whole untagged list
  collected so far in the pass; otherwise it adds nothing and calls nothing.
\<close>

theorem untagged_first_instance_stop:
  assumes "Instances r = inst # rest"
    and "Tags inst = Some tags"
    and "''NoShutdown'' \<notin> Key ` set tags"
    and "''Schedule'' \<notin> Key ` set tags"
  shows "categorise_reservation cfg user r st =
      instances_loop cfg user (InstanceId inst) rest
        (if str_in ''True'' (cfg_stop_untagged_instances cfg) then
           st\<lparr>tag_list := map Key tags,
              untagged_instances := untagged_instances st @ [InstanceId inst],
              events := events st @
                stop_untagged_instances (untagged_instances st @ [InstanceId inst]) user\<rparr>
         else st\<lparr>tag_list := map Key tags\<rparr>) \<and>
    stop_calls (stop_untagged_instances (untagged_instances st @ [InstanceId inst]) user) =
      [untagged_instances st @ [InstanceId inst]]"
proof -
  have ns: "''NoShutdown'' \<notin> set (tag_list (st\<lparr>tag_list := []\<rparr>)) \<union> Key ` set tags"
    using assms(3) by simp
  have sc: "''Schedule'' \<notin> set (tag_list (st\<lparr>tag_list := []\<rparr>)) \<union> Key ` set tags"
    using assms(4) by simp
  have "categorise_reservation cfg user r st =
      instances_loop cfg user (InstanceId inst) (inst # rest) (st\<lparr>tag_list := []\<rparr>)"
    by (simp add: categorise_reservation_def assms(1))
  also have "\<dots> = instances_loop cfg user (InstanceId inst) rest
        (if str_in ''True'' (cfg_stop_untagged_instances cfg) then
           st\<lparr>tag_list := map Key tags,
              untagged_instances := untagged_instances st @ [InstanceId inst],
              events := events st @
                stop_untagged_instances (untagged_instances st @ [InstanceId inst]) user\<rparr>
         else st\<lparr>tag_list := map Key tags\<rparr>)"
    by (simp add: categorise_instance_untagged [OF assms(2) ns sc])
  finally show ?thesis
    by (simp add: stop_untagged_instances_calls)
qed

text \<open>The theorem at a reservation of one instance tagged \<^verbatim>\<open>Name=web\<close>.\<close>

theorem untagged_first_instance_stop_witness:
  "Instances \<lparr>Instances = [mk_instance ''i-a'' [mk_tag ''Name'' ''web'']]\<rparr>
      = mk_instance ''i-a'' [mk_tag ''Name'' ''web''] # [] \<and>
   Tags (mk_instance ''i-a'' [mk_tag ''Name'' ''web'']) = Some [mk_tag ''Name'' ''web''] \<and>
   ''NoShutdown'' \<notin> Key ` set [mk_tag ''Name'' ''web''] \<and>
   ''Schedule'' \<notin> Key ` set [mk_tag ''Name'' ''web''] \<and>
   categorise_reservation example_config quiet_client
      \<lparr>Instances = [mk_instance ''i-a'' [mk_tag ''Name'' ''web'']]\<rparr> init_state =
     Inr (init_state\<lparr>tag_list := [''Name''], untagged_instances := [''i-a''],
            events := [Log ''Stopping the untagged instances : '', LogIds [''i-a''],
                       StopInstances [''i-a'']]\<rparr>)"
proof -
  have h1: "Instances \<lparr>Instances = [mk_instance ''i-a'' [mk_tag ''Name'' ''web'']]\<rparr>
      = mk_instance ''i-a'' [mk_tag ''Name'' ''web''] # []"
    by simp
  have h2: "Tags (mk_instance ''i-a'' [mk_tag ''Name'' ''web'']) = Some [mk_tag ''Name'' ''web'']"
    by (simp add: mk_instance_def)
  have h3: "''NoShutdown'' \<notin> Key ` set [mk_tag ''Name'' ''web'']"
    by (simp add: mk_tag_def)
  have h4: "''Schedule'' \<notin> Key ` set [mk_tag ''Name'' ''web'']"
    by (simp add: mk_tag_def)
  show ?thesis
    using h1 h2 h3 h4
      untagged_first_instance_stop [OF h1 h2 h3 h4, of example_config quiet_client init_state]
    by (simp add: fixture_defs init_state_def stop_untagged_instances_def)
qed

text \<open>
  As the claim is worded it fails three ways. The field is tested with \<^verbatim>\<open>in\<close>, so the
  string \<^verbatim>\<open>NotTrue\<close> switches the stop calls on as well. The tag keys are collected per
  reservation, so an instance with neither key that follows an instance tagged
  \<^verbatim>\<open>NoShutdown\<close> in the same reservation is not stopped although the field is
  \<^verbatim>\<open>True\<close>. And an instance that has no \<^verbatim>\<open>Tags\<close> entry at all ends the pass with
  an exception before any stop call.
\<close>

theorem untagged_stop_counterexample:
  "cfg_stop_untagged_instances (example_config\<lparr>cfg_stop_untagged_instances := ''NotTrue''\<rparr>) \<noteq> ''True'' \<and>
   categorise_instances (Some (snapshot [[mk_instance ''i-a'' [mk_tag ''Name'' ''web'']]]))
     (example_config\<lparr>cfg_stop_untagged_instances := ''NotTrue''\<rparr>) quiet_client =
     (Some ([], []),
      [Log ''Stopping the untagged instances : '', LogIds [''i-a''], StopInstances [''i-a'']]) \<and>
   cfg_stop_untagged_instances example_config = ''True'' \<and>
   categorise_instances
     (Some (snapshot [[mk_instance ''i-a'' [mk_tag ''NoShutdown'' ''true''],
                       mk_instance ''i-b'' [mk_tag ''Name'' ''web'']]]))
     example_config quiet_client = (Some ([], [''i-a'', ''i-a'']), []) \<and>
   categorise_instances (Some untagged_snapshot) example_config quiet_client =
     (None, [Log ''Categorisation of instances according to tags failed with this error : {}''])"
  by (simp add: fixture_defs classifier_defs untagged_snapshot_def)

section \<open>Which identifiers reach which list\<close>










lemma filter_action_no_action:
  "length (filter (to_action cfg) ts) + length (filter (to_no_action cfg) ts)
     \<le> length (filter (\<lambda>t. str_in ''Schedule'' (Key t)) ts)"
  by (induction ts) (auto simp: to_action_def to_no_action_def)

lemma categorise_instance_disjoint:
  assumes "disjoint3 st"
    and "InstanceId inst \<notin> ids_of st"
    and "length (schedule_tags inst) \<le> 1"
  shows "disjoint3 (final_state (categorise_instance cfg user (InstanceId inst) inst st)) \<and>
     ids_of (final_state (categorise_instance cfg user (InstanceId inst) inst st))
       \<subseteq> insert (InstanceId inst) (ids_of st)"
proof (cases "Tags inst")
  case None
  with assms show ?thesis
    by (auto simp: categorise_instance_def final_state_simps)
next
  case (Some tags)
  have "length (filter (to_action cfg) tags) + length (filter (to_no_action cfg) tags) \<le> 1"
    using filter_action_no_action [of cfg tags] assms(3) by (simp add: schedule_tags_def Some)
  then consider "length (filter (to_action cfg) tags) = 0"
      "length (filter (to_no_action cfg) tags) \<le> 1"
    | "length (filter (to_no_action cfg) tags) = 0"
      "length (filter (to_action cfg) tags) \<le> 1"
    by linarith
  then show ?thesis
  proof cases
    case 1
    with assms(1,2) show ?thesis
      by (auto simp: categorise_instance_def Let_def Some final_state_simps disjoint3_def
          ids_of_def schedule_loop_action schedule_loop_no_action schedule_loop_frame)
  next
    case 2
    with assms(1,2) show ?thesis
      by (auto simp: categorise_instance_def Let_def Some final_state_simps disjoint3_def
          ids_of_def schedule_loop_action schedule_loop_no_action schedule_loop_frame)
  qed
qed

lemma categorise_reservation_disjoint:
  assumes "Instances r = [inst]"
    and "disjoint3 st"
    and "InstanceId inst \<notin> ids_of st"
    and "length (schedule_tags inst) \<le> 1"
  shows "disjoint3 (final_state (categorise_reservation cfg user r st)) \<and>
     ids_of (final_state (categorise_reservation cfg user r st))
       \<subseteq> insert (InstanceId inst) (ids_of st)"
proof -
  define st0 where "st0 = st\<lparr>tag_list := []\<rparr>"
  have d: "disjoint3 st0" and i: "InstanceId inst \<notin> ids_of st0" and e: "ids_of st0 = ids_of st"
    using assms(2,3) by (simp_all add: st0_def disjoint3_def ids_of_def)
  have "final_state (categorise_reservation cfg user r st) =
      final_state (categorise_instance cfg user (InstanceId inst) inst st0)"
    by (simp add: categorise_reservation_def assms(1) st0_def split: sum.splits)
  with categorise_instance_disjoint [OF d i assms(4), of cfg user] e show ?thesis
    by simp
qed

lemma reservations_loop_disjoint:
  assumes "\<forall>r\<in>set rs. length (Instances r) = 1"
    and "distinct (all_ids rs)"
    and "\<forall>r\<in>set rs. \<forall>inst\<in>set (Instances r). length (schedule_tags inst) \<le> 1"
    and "disjoint3 st"
    and "set (all_ids rs) \<inter> ids_of st = {}"
  shows "disjoint3 (final_state (reservations_loop cfg user rs st))"
  using assms
proof (induction rs arbitrary: st)
  case Nil
  then show ?case by (simp add: final_state_simps)
next
  case (Cons r rs)
  from Cons.prems(1) obtain inst where r: "Instances r = [inst]"
    by (cases "Instances r") auto
  have ids: "all_ids (r # rs) = InstanceId inst # all_ids rs"
    by (simp add: all_ids_def r)
  have fresh: "InstanceId inst \<notin> ids_of st"
    using Cons.prems(5) by (auto simp: ids)
  have one: "length (schedule_tags inst) \<le> 1"
    using Cons.prems(3) by (simp add: r)
  note step = categorise_reservation_disjoint [OF r Cons.prems(4) fresh one, of cfg user]
  show ?case
  proof (cases "categorise_reservation cfg user r st")
    case (Inl err)
    obtain error st1 where err: "err = (error, st1)" by (cases err)
    from step show ?thesis
      by (simp add: Inl err final_state_simps)
  next
    case (Inr st1)
    from step have d1: "disjoint3 st1" and sub: "ids_of st1 \<subseteq> insert (InstanceId inst) (ids_of st)"
      by (simp_all add: Inr final_state_simps)
    have p1: "\<forall>r\<in>set rs. length (Instances r) = 1"
      using Cons.prems(1) by simp
    have p2: "distinct (all_ids rs)"
      using Cons.prems(2) by (simp add: ids)
    have p3: "\<forall>r\<in>set rs. \<forall>inst\<in>set (Instances r). length (schedule_tags inst) \<le> 1"
      using Cons.prems(3) by simp
    have p5: "set (all_ids rs) \<inter> ids_of st1 = {}"
      using Cons.prems(2,5) sub by (auto simp: ids)
    from Cons.IH [OF p1 p2 p3 d1 p5] show ?thesis
      by (simp add: Inr)
  qed
qed

text \<open>
  Claim C4, as amended. In a snapshot in which every reservation holds exactly one
  instance, the instance identifiers are pairwise distinct and no instance has more than
  one tag whose key contains \<^verbatim>\<open>Schedule\<close>, the three collections are pairwise disjoint
  when the pass stops, whether it ran to its end or an exception ended it.
\<close>

theorem single_instance_reservations_disjoint:
  assumes "\<forall>r\<in>set rs. length (Instances r) = 1"
    and "distinct (all_ids rs)"
    and "\<forall>r\<in>set rs. \<forall>inst\<in>set (Instances r). length (schedule_tags inst) \<le> 1"
  shows "set (action_required (final_state (reservations_loop cfg user rs init_state))) \<inter>
         set (no_action_required (final_state (reservations_loop cfg user rs init_state))) = {} \<and>
     set (action_required (final_state (reservations_loop cfg user rs init_state))) \<inter>
         set (untagged_instances (final_state (reservations_loop cfg user rs init_state))) = {} \<and>
     set (no_action_required (final_state (reservations_loop cfg user rs init_state))) \<inter>
         set (untagged_instances (final_state (reservations_loop cfg user rs init_state))) = {}"
proof -
  have "disjoint3 init_state" and "set (all_ids rs) \<inter> ids_of init_state = {}"
    by (simp_all add: disjoint3_def ids_of_def init_state_def)
  from reservations_loop_disjoint [OF assms this, of cfg user] show ?thesis
    by (simp add: disjoint3_def)
qed

text \<open>The theorem at three reservations of one instance each.\<close>

theorem single_instance_reservations_disjoint_witness:
  "action_required (final_state (reservations_loop example_config quiet_client
      (Reservations (snapshot [[mk_instance ''i-a'' [mk_tag ''Schedule'' ''12x5'']],
                               [mk_instance ''i-b'' [mk_tag ''Name'' ''web'']],
                               [mk_instance ''i-c'' [mk_tag ''NoShutdown'' ''true'']]]))
      init_state)) = [''i-a''] \<and>
   no_action_required (final_state (reservations_loop example_config quiet_client
      (Reservations (snapshot [[mk_instance ''i-a'' [mk_tag ''Schedule'' ''12x5'']],
                               [mk_instance ''i-b'' [mk_tag ''Name'' ''web'']],
                               [mk_instance ''i-c'' [mk_tag ''NoShutdown'' ''true'']]]))
      init_state)) = [''i-c''] \<and>
   untagged_instances (final_state (reservations_loop example_config quiet_client
      (Reservations (snapshot [[mk_instance ''i-a'' [mk_tag ''Schedule'' ''12x5'']],
                               [mk_instance ''i-b'' [mk_tag ''Name'' ''web'']],
                               [mk_instance ''i-c'' [mk_tag ''NoShutdown'' ''true'']]]))
      init_state)) = [''i-b''] \<and>
   set [''i-a''] \<inter> set [''i-c''] = ({} :: string set) \<and>
   set [''i-a''] \<inter> set [''i-b''] = ({} :: string set) \<and>
   set [''i-c''] \<inter> set [''i-b''] = ({} :: string set)"
proof -
  define rs where "rs = Reservations (snapshot [[mk_instance ''i-a'' [mk_tag ''Schedule'' ''12x5'']],
                                       [mk_instance ''i-b'' [mk_tag ''Name'' ''web'']],
                                       [mk_instance ''i-c'' [mk_tag ''NoShutdown'' ''true'']]])"
  have h1: "\<forall>r\<in>set rs. length (Instances r) = 1"
    by (simp add: rs_def snapshot_def)
  have h2: "distinct (all_ids rs)"
    by (simp add: rs_def snapshot_def all_ids_def mk_instance_def)
  have h3: "\<forall>r\<in>set rs. \<forall>inst\<in>set (Instances r). length (schedule_tags inst) \<le> 1"
    by (simp add: rs_def snapshot_def schedule_tags_def mk_instance_def mk_tag_def)
  have run: "final_state (reservations_loop example_config quiet_client rs init_state) =
      \<lparr>action_required = [''i-a''], no_action_required = [''i-c''], untagged_instances = [''i-b''],
       tag_list = [''NoShutdown''],
       events = [Log ''Stopping the untagged instances : '', LogIds [''i-b''], StopInstances [''i-b'']]\<rparr>"
    by (simp add: rs_def fixture_defs classifier_defs final_state_simps)
  show ?thesis
    using single_instance_reservations_disjoint [OF h1 h2 h3, of example_config quiet_client]
    unfolding rs_def [symmetric] by (simp add: run)
qed

text \<open>
  As the claim is worded it holds for every snapshot. One instance tagged
  \<^verbatim>\<open>Schedule=12x5\<close> and \<^verbatim>\<open>BackupSchedule=\<close> (empty) has its identifier in
  \<^verbatim>\<open>action_required\<close> and in \<^verbatim>\<open>no_action_required\<close>.
\<close>

theorem two_schedule_tags_counterexample:
  "''i-a'' \<in> set (action_required (final_state (reservations_loop example_config quiet_client
      (Reservations (snapshot [[mk_instance ''i-a'' [mk_tag ''Schedule'' ''12x5'',
                                                      mk_tag ''BackupSchedule'' []]]]))
      init_state))) \<and>
   ''i-a'' \<in> set (no_action_required (final_state (reservations_loop example_config quiet_client
      (Reservations (snapshot [[mk_instance ''i-a'' [mk_tag ''Schedule'' ''12x5'',
                                                      mk_tag ''BackupSchedule'' []]]]))
      init_state)))"
  by (simp add: fixture_defs classifier_defs final_state_simps)

section \<open>The daylight-saving window\<close>

lemmas date_defs = mk_date_def mk_datetime_def weekday_def toordinal_def days_before_year_def
  days_before_month_def is_leap_def days_in_month_def prev_day_def next_day_def
  plus_one_hour_def dt_tuple_def

lemma weekday_range: "0 \<le> weekday dt \<and> weekday dt \<le> 6"
  by (simp add: weekday_def)

lemma minus_days_april:
  assumes "1 \<le> k" and "k \<le> 7"
  shows "minus_days (mk_date y 4 1) (nat k) = Inr (mk_date y 3 (32 - k))"
proof -
  from assms have "k = 1 \<or> k = 2 \<or> k = 3 \<or> k = 4 \<or> k = 5 \<or> k = 6 \<or> k = 7"
    by arith
  then show ?thesis
    by (elim disjE) (simp_all add: eval_nat_numeral mk_date_def prev_day_def days_in_month_def)
qed

lemma minus_days_november:
  assumes "1 \<le> k" and "k \<le> 7"
  shows "minus_days (mk_date y 11 1) (nat k) = Inr (mk_date y 10 (32 - k))"
proof -
  from assms have "k = 1 \<or> k = 2 \<or> k = 3 \<or> k = 4 \<or> k = 5 \<or> k = 6 \<or> k = 7"
    by arith
  then show ?thesis
    by (elim disjE) (simp_all add: eval_nat_numeral mk_date_def prev_day_def days_in_month_def)
qed

lemma toordinal_march: "toordinal (mk_date y 3 (32 - k)) = toordinal (mk_date y 4 1) - k"
  by (simp add: toordinal_def mk_date_def days_before_month_def)

lemma toordinal_october: "toordinal (mk_date y 10 (32 - k)) = toordinal (mk_date y 11 1) - k"
  by (simp add: toordinal_def mk_date_def days_before_month_def)

lemma sunday_before: "(n - ((n + 6) mod 7 + 1) + 6) mod 7 = (6::int)"
  by presburger

lemma weekday_dston: "weekday (mk_date y 3 (32 - (weekday (mk_date y 4 1) + 1))) = 6"
  unfolding weekday_def [of "mk_date y 3 _"] toordinal_march
  by (simp only: weekday_def sunday_before)

lemma weekday_dstoff: "weekday (mk_date y 10 (32 - (weekday (mk_date y 11 1) + 1))) = 6"
  unfolding weekday_def [of "mk_date y 10 _"] toordinal_october
  by (simp only: weekday_def sunday_before)

lemma plus_one_hour_before_december:
  assumes "dt_month dt < 12"
  shows "\<exists>later. plus_one_hour dt = Inr later"
  using assms by (simp add: plus_one_hour_def next_day_def)

lemma is_dst_unfolded:
  "is_dst now =
     (if dt_tuple (mk_date (dt_year now) 3 (31 - weekday (mk_date (dt_year now) 4 1))) \<le> dt_tuple now \<and>
         dt_tuple now < dt_tuple (mk_date (dt_year now) 10 (31 - weekday (mk_date (dt_year now) 11 1)))
      then (case plus_one_hour now of
              Inl error \<Rightarrow> Inl error
            | Inr later \<Rightarrow> Inr (later, ''GMT +1''))
      else Inr (now, ''GMT''))"
proof -
  define y where "y = dt_year now"
  define ka where "ka = weekday (mk_date y 4 1) + 1"
  define kb where "kb = weekday (mk_date y 11 1) + 1"
  have ka: "1 \<le> ka" "ka \<le> 7" and kb: "1 \<le> kb" "kb \<le> 7"
    using weekday_range [of "mk_date y 4 1"] weekday_range [of "mk_date y 11 1"]
    by (simp_all add: ka_def kb_def)
  have a: "31 - weekday (mk_date y 4 1) = 32 - ka" and b: "31 - weekday (mk_date y 11 1) = 32 - kb"
    by (simp_all add: ka_def kb_def)
  show ?thesis
    unfolding is_dst_def Let_def y_def [symmetric] a b ka_def [symmetric] kb_def [symmetric]
      minus_days_april [OF ka] minus_days_november [OF kb]
    by simp
qed

lemma div_pred:
  assumes "0 < (n::int)"
  shows "(y - 1) div n = y div n - (if y mod n = 0 then 1 else 0)"
proof (cases "y mod n = 0")
  case True
  have "n * (y div n) + y mod n = y" by simp
  with True have "n * (y div n) = y" by simp
  then have "y - 1 = n * (y div n - 1) + (n - 1)"
    by (simp add: right_diff_distrib)
  then have "(y - 1) div n = y div n - 1"
    by (rule int_div_pos_eq) (use assms in simp_all)
  with True show ?thesis by simp
next
  case False
  have "0 \<le> y mod n" "y mod n < n"
    using assms by simp_all
  with False have r: "0 \<le> y mod n - 1" "y mod n - 1 < n"
    by simp_all
  have "n * (y div n) + y mod n = y" by simp
  then have "y - 1 = n * (y div n) + (y mod n - 1)"
    by linarith
  then have "(y - 1) div n = y div n"
    using r by (rule int_div_pos_eq)
  with False show ?thesis by simp
qed

lemma mod_100_4:
  assumes "(y::int) mod 100 = 0"
  shows "y mod 4 = 0"
proof -
  have "(4::int) dvd 100" by simp
  moreover have "100 dvd y" using assms by (simp add: dvd_eq_mod_eq_0)
  ultimately have "4 dvd y" by (rule dvd_trans)
  then show ?thesis by (simp add: dvd_eq_mod_eq_0)
qed

lemma mod_400_100:
  assumes "(y::int) mod 400 = 0"
  shows "y mod 100 = 0"
proof -
  have "(100::int) dvd 400" by simp
  moreover have "400 dvd y" using assms by (simp add: dvd_eq_mod_eq_0)
  ultimately have "100 dvd y" by (rule dvd_trans)
  then show ?thesis by (simp add: dvd_eq_mod_eq_0)
qed



lemma days_before_year_next:
  "days_before_year (y + 1) = days_before_year y + (if is_leap y then 366 else 365)"
proof -
  define a :: int where "a = (if y mod 4 = 0 then 1 else 0)"
  define b :: int where "b = (if y mod 100 = 0 then 1 else 0)"
  define c :: int where "c = (if y mod 400 = 0 then 1 else 0)"
  have d4: "(y - 1) div 4 = y div 4 - a"
    unfolding a_def by (rule div_pred) simp
  have d100: "(y - 1) div 100 = y div 100 - b"
    unfolding b_def by (rule div_pred) simp
  have d400: "(y - 1) div 400 = y div 400 - c"
    unfolding c_def by (rule div_pred) simp
  have next_year: "days_before_year (y + 1) = y * 365 + y div 4 - y div 100 + y div 400"
    by (simp add: days_before_year_def)
  have this_year: "days_before_year y =
      (y - 1) * 365 + (y div 4 - a) - (y div 100 - b) + (y div 400 - c)"
    unfolding days_before_year_def d4 d100 d400 by (rule refl)
  have leap: "(if is_leap y then 366 else 365) = 365 + a - b + c"
    using mod_100_4 [of y] mod_400_100 [of y]
    by (cases "y mod 4 = 0"; cases "y mod 100 = 0"; cases "y mod 400 = 0")
      (simp_all add: is_leap_def a_def b_def c_def)
  show ?thesis
    unfolding next_year this_year leap by (simp add: left_diff_distrib)
qed


lemma days_before_month_next:
  assumes "1 \<le> m" and "m < 12"
  shows "days_before_month y (m + 1) = days_before_month y m + days_in_month y m"
proof -
  from assms have "m = 1 \<or> m = 2 \<or> m = 3 \<or> m = 4 \<or> m = 5 \<or> m = 6 \<or> m = 7 \<or> m = 8 \<or> m = 9
      \<or> m = 10 \<or> m = 11"
    by arith
  then show ?thesis
    by (elim disjE) (simp_all add: days_before_month_def days_in_month_def)
qed

lemma toordinal_next_day:
  assumes "valid_datetime dt" and "next_day dt = Inr dt'"
  shows "toordinal dt' = toordinal dt + 1"
proof -
  have v: "1 \<le> dt_month dt" "dt_month dt \<le> 12"
      "dt_day dt \<le> days_in_month (dt_year dt) (dt_month dt)"
    using assms(1) by (simp_all add: valid_datetime_def)
  show ?thesis
  proof (cases "dt_day dt < days_in_month (dt_year dt) (dt_month dt)")
    case True
    then have "next_day dt = Inr (dt\<lparr>dt_day := dt_day dt + 1\<rparr>)"
      by (simp add: next_day_def)
    with assms(2) have "dt' = dt\<lparr>dt_day := dt_day dt + 1\<rparr>"
      by simp
    then show ?thesis
      by (simp add: toordinal_def)
  next
    case False
    with v(3) have last: "days_in_month (dt_year dt) (dt_month dt) = dt_day dt"
      by simp
    show ?thesis
    proof (cases "dt_month dt < 12")
      case True
      with False have "next_day dt = Inr (dt\<lparr>dt_month := dt_month dt + 1, dt_day := 1\<rparr>)"
        by (simp add: next_day_def)
      with assms(2) have "dt' = dt\<lparr>dt_month := dt_month dt + 1, dt_day := 1\<rparr>"
        by simp
      then have "toordinal dt' =
          days_before_year (dt_year dt) + days_before_month (dt_year dt) (dt_month dt + 1) + 1"
        by (simp add: toordinal_def)
      then show ?thesis
        unfolding days_before_month_next [OF v(1) True] last toordinal_def by simp
    next
      case december: False
      with v(2) have m: "dt_month dt = 12"
        by simp
      from last have d: "dt_day dt = 31"
        unfolding m by (simp add: days_in_month_def)
      have y: "dt_year dt < 9999"
      proof (rule ccontr)
        assume "\<not> dt_year dt < 9999"
        with False december have "next_day dt = Inl OverflowError"
          by (simp add: next_day_def)
        with assms(2) show False by simp
      qed
      with False december
      have "next_day dt = Inr (dt\<lparr>dt_year := dt_year dt + 1, dt_month := 1, dt_day := 1\<rparr>)"
        by (simp add: next_day_def)
      with assms(2) have "dt' = dt\<lparr>dt_year := dt_year dt + 1, dt_month := 1, dt_day := 1\<rparr>"
        by simp
      then have new: "toordinal dt' = days_before_year (dt_year dt + 1) + 1"
        by (simp add: toordinal_def days_before_month_def)
      have old: "toordinal dt = days_before_year (dt_year dt) + (if is_leap (dt_year dt) then 366 else 365)"
        unfolding toordinal_def m d by (simp add: days_before_month_def)
      show ?thesis
        unfolding new old days_before_year_next by simp
    qed
  qed
qed

lemma plus_one_hour_count:
  assumes "valid_datetime dt" and "plus_one_hour dt = Inr later"
  shows "hours_count later = hours_count dt + 1 \<and> dt_minute later = dt_minute dt \<and>
     dt_second later = dt_second dt \<and> dt_microsecond later = dt_microsecond dt"
proof (cases "dt_hour dt < 23")
  case True
  then have "plus_one_hour dt = Inr (dt\<lparr>dt_hour := dt_hour dt + 1\<rparr>)"
    by (simp add: plus_one_hour_def)
  with assms(2) have "later = dt\<lparr>dt_hour := dt_hour dt + 1\<rparr>"
    by simp
  then show ?thesis
    by (simp add: hours_count_def toordinal_def)
next
  case False
  then have h: "dt_hour dt = 23"
    using assms(1) by (simp add: valid_datetime_def)
  from False assms(2) obtain dt' where n: "next_day dt = Inr dt'" and l: "later = dt'\<lparr>dt_hour := 0\<rparr>"
    by (cases "next_day dt") (simp_all add: plus_one_hour_def)
  have same: "toordinal later = toordinal dt'"
    by (simp add: l toordinal_def)
  have rest: "dt_minute dt' = dt_minute dt \<and> dt_second dt' = dt_second dt \<and>
      dt_microsecond dt' = dt_microsecond dt"
    using n by (auto simp: next_day_def split: if_splits)
  show ?thesis
    using toordinal_next_day [OF assms(1) n] h same rest
    by (simp add: hours_count_def l)
qed

lemma weekday_2024:
  "weekday (mk_date 2024 4 1) = 0" "weekday (mk_date 2024 11 1) = 4"
  by (simp_all add: weekday_def toordinal_def mk_date_def days_before_year_def
      days_before_month_def is_leap_def)

text \<open>
  Claim C5, as amended. For every timestamp \<open>now\<close> there are days \<open>a\<close> of March and
  \<open>b\<close> of October of the year of \<open>now\<close>, each between the 25th and the 31st and each a
  Sunday (weekday 6): the last Sunday of March and the last Sunday of October. If \<open>now\<close>
  is at or after midnight of the first and before midnight of the second, \<open>is_dst\<close>
  returns \<open>now\<close> plus one hour with the label \<^verbatim>\<open>GMT +1\<close> (for a valid \<open>now\<close> the hour
  count grows by one and minute, second and microsecond stay); otherwise it returns \<open>now\<close>
  unchanged with the label \<^verbatim>\<open>GMT\<close>. No exception is raised.
\<close>

theorem is_dst_sunday_window:
  "\<exists>a b. 25 \<le> a \<and> a \<le> 31 \<and> weekday (mk_date (dt_year now) 3 a) = 6 \<and>
         25 \<le> b \<and> b \<le> 31 \<and> weekday (mk_date (dt_year now) 10 b) = 6 \<and>
         (if dt_tuple (mk_date (dt_year now) 3 a) \<le> dt_tuple now \<and>
             dt_tuple now < dt_tuple (mk_date (dt_year now) 10 b)
          then \<exists>later. plus_one_hour now = Inr later \<and> is_dst now = Inr (later, ''GMT +1'') \<and>
                 (valid_datetime now \<longrightarrow>
                    hours_count later = hours_count now + 1 \<and> dt_minute later = dt_minute now \<and>
                    dt_second later = dt_second now \<and> dt_microsecond later = dt_microsecond now)
          else is_dst now = Inr (now, ''GMT''))"
proof -
  define y where "y = dt_year now"
  define a where "a = 31 - weekday (mk_date y 4 1)"
  define b where "b = 31 - weekday (mk_date y 11 1)"
  have wa: "weekday (mk_date y 3 a) = 6"
    using weekday_dston [of y] by (simp add: a_def)
  have wb: "weekday (mk_date y 10 b) = 6"
    using weekday_dstoff [of y] by (simp add: b_def)
  have range: "25 \<le> a" "a \<le> 31" "25 \<le> b" "b \<le> 31"
    using weekday_range [of "mk_date y 4 1"] weekday_range [of "mk_date y 11 1"]
    by (simp_all add: a_def b_def)
  define inside where "inside \<longleftrightarrow>
      dt_tuple (mk_date y 3 a) \<le> dt_tuple now \<and> dt_tuple now < dt_tuple (mk_date y 10 b)"
  have body: "is_dst now =
      (if inside then
         (case plus_one_hour now of
            Inl error \<Rightarrow> Inl error
          | Inr later \<Rightarrow> Inr (later, ''GMT +1''))
       else Inr (now, ''GMT''))"
    unfolding inside_def a_def b_def y_def by (rule is_dst_unfolded)
  have window: "if inside
          then \<exists>later. plus_one_hour now = Inr later \<and> is_dst now = Inr (later, ''GMT +1'') \<and>
                 (valid_datetime now \<longrightarrow>
                    hours_count later = hours_count now + 1 \<and> dt_minute later = dt_minute now \<and>
                    dt_second later = dt_second now \<and> dt_microsecond later = dt_microsecond now)
          else is_dst now = Inr (now, ''GMT'')"
  proof (cases inside)
    case True
    then have "dt_month now < 12"
      by (auto simp: inside_def dt_tuple_def mk_date_def y_def)
    then obtain later where later: "plus_one_hour now = Inr later"
      using plus_one_hour_before_december by blast
    have "is_dst now = Inr (later, ''GMT +1'')"
      using True by (simp add: body later)
    moreover have "valid_datetime now \<longrightarrow>
        hours_count later = hours_count now + 1 \<and> dt_minute later = dt_minute now \<and>
        dt_second later = dt_second now \<and> dt_microsecond later = dt_microsecond now"
      using plus_one_hour_count [OF _ later] by blast
    ultimately show ?thesis
      using True later by simp
  next
    case False
    then show ?thesis
      by (simp add: body)
  qed
  from range wa wb window show ?thesis
    unfolding y_def inside_def by blast
qed

text \<open>The theorem at 2024-06-15 23:30, where the added hour crosses midnight, and a winter date.\<close>

theorem is_dst_sunday_window_witness:
  "valid_datetime (mk_datetime 2024 6 15 23 30) \<and>
   is_dst (mk_datetime 2024 6 15 23 30) = Inr (mk_datetime 2024 6 16 0 30, ''GMT +1'') \<and>
   hours_count (mk_datetime 2024 6 16 0 30) = hours_count (mk_datetime 2024 6 15 23 30) + 1 \<and>
   is_dst (mk_datetime 2024 12 24 9 0) = Inr (mk_datetime 2024 12 24 9 0, ''GMT'')"
proof -
  have v: "valid_datetime (mk_datetime 2024 6 15 23 30)"
    by (simp add: valid_datetime_def mk_datetime_def days_in_month_def)
  have y: "dt_year (mk_datetime 2024 6 15 23 30) = 2024" "dt_year (mk_datetime 2024 12 24 9 0) = 2024"
    by (simp_all add: mk_datetime_def)
  have later: "plus_one_hour (mk_datetime 2024 6 15 23 30) = Inr (mk_datetime 2024 6 16 0 30)"
    by (simp add: plus_one_hour_def next_day_def mk_datetime_def days_in_month_def)
  have summer: "is_dst (mk_datetime 2024 6 15 23 30) = Inr (mk_datetime 2024 6 16 0 30, ''GMT +1'')"
    unfolding is_dst_unfolded y weekday_2024 later
    by (simp add: dt_tuple_def mk_date_def mk_datetime_def)
  have winter: "is_dst (mk_datetime 2024 12 24 9 0) = Inr (mk_datetime 2024 12 24 9 0, ''GMT'')"
    unfolding is_dst_unfolded y weekday_2024
    by (simp add: dt_tuple_def mk_date_def mk_datetime_def)
  from is_dst_sunday_window [of "mk_datetime 2024 6 15 23 30"]
  obtain a b where "if dt_tuple (mk_date (dt_year (mk_datetime 2024 6 15 23 30)) 3 a)
          \<le> dt_tuple (mk_datetime 2024 6 15 23 30) \<and>
        dt_tuple (mk_datetime 2024 6 15 23 30)
          < dt_tuple (mk_date (dt_year (mk_datetime 2024 6 15 23 30)) 10 b)
      then \<exists>later. plus_one_hour (mk_datetime 2024 6 15 23 30) = Inr later \<and>
             is_dst (mk_datetime 2024 6 15 23 30) = Inr (later, ''GMT +1'') \<and>
             (valid_datetime (mk_datetime 2024 6 15 23 30) \<longrightarrow>
                hours_count later = hours_count (mk_datetime 2024 6 15 23 30) + 1 \<and>
                dt_minute later = dt_minute (mk_datetime 2024 6 15 23 30) \<and>
                dt_second later = dt_second (mk_datetime 2024 6 15 23 30) \<and>
                dt_microsecond later = dt_microsecond (mk_datetime 2024 6 15 23 30))
      else is_dst (mk_datetime 2024 6 15 23 30) = Inr (mk_datetime 2024 6 15 23 30, ''GMT'')"
    by blast
  with summer later v
  have "hours_count (mk_datetime 2024 6 16 0 30) = hours_count (mk_datetime 2024 6 15 23 30) + 1"
    by (auto split: if_splits)
  with v summer winter show ?thesis
    by (intro conjI)
qed

text \<open>
  As the claim is worded, the window starts on the most recent Monday on or before
  April 1 and the label is \<^verbatim>\<open>GMT+1\<close>. April 1 of 2024 is a Monday; at noon of Sunday
  2024-03-31 the code already adds the hour, and in mid June its label is \<^verbatim>\<open>GMT +1\<close>.
\<close>

theorem is_dst_window_counterexample:
  "is_dst (mk_datetime 2024 3 31 12 0) = Inr (mk_datetime 2024 3 31 13 0, ''GMT +1'') \<and>
   is_dst_as_specified (mk_datetime 2024 3 31 12 0) = Inr (mk_datetime 2024 3 31 12 0, ''GMT'') \<and>
   is_dst (mk_datetime 2024 6 15 12 0) = Inr (mk_datetime 2024 6 15 13 0, ''GMT +1'') \<and>
   is_dst_as_specified (mk_datetime 2024 6 15 12 0) = Inr (mk_datetime 2024 6 15 13 0, ''GMT+1'')"
proof -
  have y: "dt_year (mk_datetime 2024 3 31 12 0) = 2024" "dt_year (mk_datetime 2024 6 15 12 0) = 2024"
    by (simp_all add: mk_datetime_def)
  have march: "is_dst (mk_datetime 2024 3 31 12 0) = Inr (mk_datetime 2024 3 31 13 0, ''GMT +1'')"
    unfolding is_dst_unfolded y weekday_2024
    by (simp add: dt_tuple_def mk_date_def mk_datetime_def plus_one_hour_def)
  have june: "is_dst (mk_datetime 2024 6 15 12 0) = Inr (mk_datetime 2024 6 15 13 0, ''GMT +1'')"
    unfolding is_dst_unfolded y weekday_2024
    by (simp add: dt_tuple_def mk_date_def mk_datetime_def plus_one_hour_def)
  have monday_start: "minus_days (mk_date 2024 4 1) (nat 0) = Inr (mk_date 2024 4 1)"
    by simp
  have monday_end: "minus_days (mk_date 2024 11 1) (nat 4) = Inr (mk_date 2024 10 28)"
    using minus_days_november [of 4 2024] by simp
  have march_spec: "is_dst_as_specified (mk_datetime 2024 3 31 12 0) =
      Inr (mk_datetime 2024 3 31 12 0, ''GMT'')"
    unfolding is_dst_as_specified_def Let_def y weekday_2024 monday_start monday_end
    by (simp add: dt_tuple_def mk_date_def mk_datetime_def)
  have june_spec: "is_dst_as_specified (mk_datetime 2024 6 15 12 0) =
      Inr (mk_datetime 2024 6 15 13 0, ''GMT+1'')"
    unfolding is_dst_as_specified_def Let_def y weekday_2024 monday_start monday_end
    by (simp add: dt_tuple_def mk_date_def mk_datetime_def plus_one_hour_def)
  from march march_spec june june_spec show ?thesis
    by (intro conjI)
qed

section \<open>The dispatcher: which calls a run makes\<close>














section \<open>The weekday test of the entry point\<close>

lemma split_on_no_sep:
  assumes "sep \<notin> set s"
  shows "split_on sep s = [s]"
  using assms by (induction s) auto

lemma split_on_one_sep:
  assumes "sep \<notin> set left" and "sep \<notin> set right"
  shows "split_on sep (left @ sep # right) = [left, right]"
  using assms by (induction left) (auto simp: split_on_no_sep)

lemma digit_not_space: "is_digit c \<Longrightarrow> \<not> is_space c"
  by (auto simp: is_digit_def is_space_def)

lemma digit_not_sign: "is_digit c \<Longrightarrow> c \<noteq> CHR ''-'' \<and> c \<noteq> CHR ''+'' \<and> c \<noteq> CHR ''x''"
  by (auto simp: is_digit_def)

lemma dropWhile_digits:
  assumes "list_all is_digit ds"
  shows "dropWhile is_space ds = ds"
  using assms by (cases ds) (simp_all add: digit_not_space)

lemma strip_digits:
  assumes "list_all is_digit ds"
  shows "strip ds = ds"
proof -
  have "list_all is_digit (rev ds)"
    using assms by (simp add: list_all_iff)
  then have "dropWhile is_space (rev ds) = rev ds"
    by (rule dropWhile_digits)
  then show ?thesis
    by (simp add: strip_def dropWhile_digits [OF assms])
qed

lemma py_int_digits:
  assumes "ds \<noteq> []" and "list_all is_digit ds"
  shows "py_int ds = Inr (int (digits_value 0 ds))"
proof -
  from assms obtain c cs where ds: "ds = c # cs" and c: "is_digit c"
    by (cases ds) simp_all
  have "hd ds \<noteq> CHR ''-''" "hd ds \<noteq> CHR ''+''"
    using digit_not_sign [OF c] by (simp_all add: ds)
  then show ?thesis
    using assms by (simp add: py_int_def strip_digits Let_def)
qed

lemma is_weekday_form:
  assumes "CHR ''x'' \<notin> set hours"
    and "days \<noteq> []"
    and "list_all is_digit days"
  shows "is_weekday day (hours @ CHR ''x'' # days) = Inr (day \<le> int (digits_value 0 days) - 1)"
proof -
  have "CHR ''x'' \<notin> set days"
    using assms(3) digit_not_sign by (auto simp: list_all_iff)
  then have "split_on CHR ''x'' (hours @ CHR ''x'' # days) = [hours, days]"
    using assms(1) by (simp add: split_on_one_sep)
  then show ?thesis
    by (simp add: is_weekday_def py_int_digits [OF assms(2,3)])
qed

lemma lambda_handler_trace_cases:
  "lambda_handler e = [Log ''Lambda failed to run with the following error : {}''] \<or>
   lambda_handler e = [Log ''I do not operate on weekends.''] \<or>
   (\<exists>cfg. env_config e = Some cfg \<and> is_weekday (env_weekday e) (cfg_halfDay cfg) = Inr True)"
proof (cases "env_config e")
  case None
  then show ?thesis by (simp add: lambda_handler_def)
next
  case (Some cfg)
  show ?thesis
  proof (cases "is_weekday (env_weekday e) (cfg_halfDay cfg)")
    case (Inl error)
    then show ?thesis by (simp add: lambda_handler_def Some)
  next
    case (Inr b)
    then show ?thesis by (cases b) (simp_all add: lambda_handler_def Some)
  qed
qed

text \<open>
  Claim C7. For a \<^verbatim>\<open>halfDay\<close> string made of a part without \<^verbatim>\<open>x\<close>, an \<^verbatim>\<open>x\<close> and
  a non-empty run of digits, \<open>is_weekday\<close> returns whether \<open>day \<le> days - 1\<close>, with
  \<open>days\<close> the number the digits denote; \<^verbatim>\<open>is_weekday(0, "12x5")\<close> is true and
  \<^verbatim>\<open>is_weekday(5, "12x5")\<close> is false. When the predicate is false the entry point only
  logs that it does not operate on weekends, and any role assumed for an account in a
  trace of the entry point means that the predicate was true.
\<close>

theorem is_weekday_decides:
  assumes "CHR ''x'' \<notin> set hours"
    and "days \<noteq> []"
    and "list_all is_digit days"
  shows "is_weekday day (hours @ CHR ''x'' # days) = Inr (day \<le> int (digits_value 0 days) - 1) \<and>
     is_weekday 0 ''12x5'' = Inr True \<and>
     is_weekday 5 ''12x5'' = Inr False \<and>
     (env_config e = Some cfg \<and> is_weekday (env_weekday e) (cfg_halfDay cfg) = Inr False \<longrightarrow>
        lambda_handler e = [Log ''I do not operate on weekends.'']) \<and>
     ((\<exists>role_arn. AssumeRole role_arn \<in> set (lambda_handler e)) \<longrightarrow>
        (\<exists>c. env_config e = Some c \<and> is_weekday (env_weekday e) (cfg_halfDay c) = Inr True))"
proof -
  have form: "is_weekday day (hours @ CHR ''x'' # days) = Inr (day \<le> int (digits_value 0 days) - 1)"
    using assms by (rule is_weekday_form)
  have monday: "is_weekday 0 ''12x5'' = Inr True"
    using is_weekday_form [of "''12''" "''5''" 0] by (simp add: is_digit_def digit_val_def)
  have saturday: "is_weekday 5 ''12x5'' = Inr False"
    using is_weekday_form [of "''12''" "''5''" 5] by (simp add: is_digit_def digit_val_def)
  have weekend: "env_config e = Some cfg \<and> is_weekday (env_weekday e) (cfg_halfDay cfg) = Inr False \<longrightarrow>
        lambda_handler e = [Log ''I do not operate on weekends.'']"
    by (simp add: lambda_handler_def)
  have only_then: "(\<exists>role_arn. AssumeRole role_arn \<in> set (lambda_handler e)) \<longrightarrow>
        (\<exists>c. env_config e = Some c \<and> is_weekday (env_weekday e) (cfg_halfDay c) = Inr True)"
    using lambda_handler_trace_cases [of e] by auto
  from form monday saturday weekend only_then show ?thesis
    by (intro conjI)
qed

text \<open>The theorem at \<^verbatim>\<open>12x4\<close> on days 3 and 4, and at the entry point on a Saturday.\<close>

theorem is_weekday_decides_witness:
  "CHR ''x'' \<notin> set ''12'' \<and> ''4'' \<noteq> [] \<and> list_all is_digit ''4'' \<and>
   is_weekday 3 ''12x4'' = Inr True \<and>
   is_weekday 4 ''12x4'' = Inr False \<and>
   env_config (example_env\<lparr>env_weekday := 5\<rparr>) = Some example_config \<and>
   is_weekday (env_weekday (example_env\<lparr>env_weekday := 5\<rparr>)) (cfg_halfDay example_config) = Inr False \<and>
   lambda_handler (example_env\<lparr>env_weekday := 5\<rparr>) = [Log ''I do not operate on weekends.'']"
proof -
  have h1: "CHR ''x'' \<notin> set ''12''" by simp
  have h2: "''4'' \<noteq> []" by simp
  have h3: "list_all is_digit ''4''" by (simp add: is_digit_def)
  have c: "env_config (example_env\<lparr>env_weekday := 5\<rparr>) = Some example_config"
    by (simp add: example_env_def)
  have w: "env_weekday (example_env\<lparr>env_weekday := 5\<rparr>) = 5"
    by simp
  have h: "cfg_halfDay example_config = ''12x5''"
    by (simp add: example_config_def)
  note day3 = is_weekday_decides [OF h1 h2 h3, of 3 "example_env\<lparr>env_weekday := 5\<rparr>" example_config]
  note day4 = is_weekday_decides [OF h1 h2 h3, of 4 "example_env\<lparr>env_weekday := 5\<rparr>" example_config]
  show ?thesis
    using h1 h2 h3 c day3 day4
    by (simp add: w h digit_val_def)
qed

section \<open>A failed classification\<close>

text \<open>
  The only exception the loops of the classifier can raise is the \<^verbatim>\<open>KeyError\<close> of an
  instance without a \<^verbatim>\<open>Tags\<close> entry: when every instance has one, the pass runs to
  its end.
\<close>

lemma instances_loop_all_tagged:
  assumes "\<forall>inst\<in>set insts. Tags inst \<noteq> None"
  shows "\<exists>st'. instances_loop cfg user first_id insts st = Inr st'"
  using assms
proof (induction insts arbitrary: st)
  case Nil
  show ?case by simp
next
  case (Cons inst insts)
  from Cons.prems obtain tags where "Tags inst = Some tags"
    by auto
  then have "\<exists>st1. categorise_instance cfg user first_id inst st = Inr st1"
    by (simp add: categorise_instance_def Let_def)
  then obtain st1 where "categorise_instance cfg user first_id inst st = Inr st1"
    by blast
  moreover from Cons.prems have "\<forall>inst\<in>set insts. Tags inst \<noteq> None"
    by simp
  from Cons.IH [OF this] obtain st' where "instances_loop cfg user first_id insts st1 = Inr st'"
    by blast
  ultimately show ?case
    by simp
qed

lemma reservations_loop_all_tagged:
  assumes "\<forall>r\<in>set rs. \<forall>inst\<in>set (Instances r). Tags inst \<noteq> None"
  shows "\<exists>st'. reservations_loop cfg user rs st = Inr st'"
  using assms
proof (induction rs arbitrary: st)
  case Nil
  show ?case by simp
next
  case (Cons r rs)
  from Cons.prems have "\<forall>inst\<in>set (Instances r). Tags inst \<noteq> None"
    by simp
  then have "\<exists>st1. categorise_reservation cfg user r st = Inr st1"
    using instances_loop_all_tagged [of "Instances r" cfg user]
    by (cases "Instances r") (simp_all add: categorise_reservation_def)
  then obtain st1 where "categorise_reservation cfg user r st = Inr st1"
    by blast
  moreover from Cons.prems have "\<forall>r\<in>set rs. \<forall>inst\<in>set (Instances r). Tags inst \<noteq> None"
    by simp
  from Cons.IH [OF this] obtain st' where "reservations_loop cfg user rs st1 = Inr st'"
    by blast
  ultimately show ?case
    by simp
qed

lemma accounts_loop_stops:
  assumes "accounts_loop e cfg earlier = (None, evs0)"
    and "process_account e cfg role_arn = (Some err, evs)"
  shows "accounts_loop e cfg (earlier @ role_arn # remaining) = (Some err, evs0 @ evs)"
  using assms(1)
proof (induction earlier arbitrary: evs0)
  case Nil
  then show ?case by (simp add: assms(2))
next
  case (Cons a earlier)
  obtain r ev where a: "process_account e cfg a = (r, ev)"
    by (cases "process_account e cfg a")
  obtain r' ev' where rest: "accounts_loop e cfg earlier = (r', ev')"
    by (cases "accounts_loop e cfg earlier")
  from Cons.prems have "r = None"
    by (cases r) (simp_all add: a)
  with Cons.prems have "r' = None" and evs0: "evs0 = ev @ ev'"
    by (simp_all add: a rest)
  with rest have "accounts_loop e cfg earlier = (None, ev')"
    by simp
  from Cons.IH [OF this] show ?case
    by (simp add: a \<open>r = None\<close> evs0)
qed

lemma categorise_instances_raised:
  assumes "reservations_loop cfg user (Reservations d) init_state = Inl (error, st)"
  shows "categorise_instances (Some d) cfg user =
     (None, events st @
        [Log ''Categorisation of instances according to tags failed with this error : {}''])"
  using assms by (simp add: categorise_instances_def)

lemma get_instance_ids_after_raise:
  assumes "describe_instances user state = Inr dat"
    and "categorise_instances dat cfg user = (None, evs)"
  shows "get_instance_ids (Some user) cfg state now tz =
     (None, [DescribeInstances state, Log ''The date is : {} , {}''] @ evs @
            [Log ''Describing the instances failed with the following error : {}''])"
  using assms by (simp add: get_instance_ids_def)

lemma start_stop_after_raise:
  assumes "start \<le> time_of now \<and> time_of now < stop \<and> state = ''stopped'' \<or>
      \<not> (start \<le> time_of now \<and> time_of now < stop) \<and> stop \<le> time_of now \<and> state = ''running''"
    and "get_instance_ids temporary_user cfg state now tz = (None, evs)"
  shows "start_stop now start stop temporary_user cfg tz = (Some TypeError, evs)"
  using assms by (auto simp: start_stop_def)

lemma example_clock:
  "convert_to_datetime (mk_datetime 2024 1 15 8 0) example_config =
     (Some ((7, 0, 0, 0), (19, 0, 0, 0), mk_datetime 2024 1 15 8 0, ''GMT''), [])"
proof -
  have y: "dt_year (mk_datetime 2024 1 15 8 0) = 2024"
    by (simp add: mk_datetime_def)
  have dst: "is_dst (mk_datetime 2024 1 15 8 0) = Inr (mk_datetime 2024 1 15 8 0, ''GMT'')"
    unfolding is_dst_unfolded y weekday_2024
    by (simp add: dt_tuple_def mk_date_def mk_datetime_def)
  have start: "parse_clock ''7,0'' = Inr (7, 0, 0, 0)"
    by (simp add: parse_clock_def py_int_def strip_def is_space_def is_digit_def digit_val_def
        py_time_def)
  have stop: "parse_clock ''19,0'' = Inr (19, 0, 0, 0)"
    by (simp add: parse_clock_def py_int_def strip_def is_space_def is_digit_def digit_val_def
        py_time_def)
  show ?thesis
    by (simp add: convert_to_datetime_def dst example_config_def start stop)
qed

text \<open>
  Claim C9, as amended. Let the classification of the instances of an account raise an
  exception, the accounts before it having been processed without one. Then
  \<^verbatim>\<open>categorise_instances\<close> logs the failure and returns \<^verbatim>\<open>None\<close>;
  \<^verbatim>\<open>get_instance_ids\<close> does not test for that, the unpacking raises inside its own
  \<^verbatim>\<open>try\<close>, and it logs and returns \<^verbatim>\<open>None\<close> in turn; unpacking that in
  \<^verbatim>\<open>start_stop\<close> raises a \<^verbatim>\<open>TypeError\<close> which only the handler of the entry point
  catches and logs. The trace of the invocation ends there: the entry point returns and
  nothing is done for the remaining accounts.
\<close>

theorem classification_failure_ends_invocation:
  assumes "env_config e = Some cfg"
    and "is_weekday (env_weekday e) (cfg_halfDay cfg) = Inr True"
    and "cfg_role_arns cfg = earlier @ role_arn # remaining"
    and "accounts_loop e cfg earlier = (None, evs_earlier)"
    and "4 < length (split_on CHR '':'' role_arn)"
    and "env_temp_user e role_arn = Some user"
    and "convert_to_datetime (env_now e role_arn) cfg = (Some (start, stop, now, tz), evs_time)"
    and "map_of (cfg_account_names cfg) (split_on CHR '':'' role_arn ! 4) = Some account_name"
    and "start \<le> time_of now \<and> time_of now < stop \<and> state = ''stopped'' \<or>
      \<not> (start \<le> time_of now \<and> time_of now < stop) \<and> stop \<le> time_of now \<and> state = ''running''"
    and "describe_instances user state = Inr (Some d)"
    and "reservations_loop cfg user (Reservations d) init_state = Inl (error, st)"
  shows "categorise_instances (Some d) cfg user =
       (None, events st @
          [Log ''Categorisation of instances according to tags failed with this error : {}'']) \<and>
     get_instance_ids (Some user) cfg state now tz =
       (None, [DescribeInstances state, Log ''The date is : {} , {}''] @ events st @
              [Log ''Categorisation of instances according to tags failed with this error : {}'',
               Log ''Describing the instances failed with the following error : {}'']) \<and>
     start_stop now start stop (Some user) cfg tz =
       (Some TypeError, snd (get_instance_ids (Some user) cfg state now tz)) \<and>
     lambda_handler e =
       evs_earlier @ [AssumeRole role_arn] @ evs_time @ [Log ''Lambda started for account : {}''] @
       snd (get_instance_ids (Some user) cfg state now tz) @
       [Log ''Lambda failed to run with the following error : {}'']"
proof -
  note cat = categorise_instances_raised [OF assms(11)]
  have get: "get_instance_ids (Some user) cfg state now tz =
       (None, [DescribeInstances state, Log ''The date is : {} , {}''] @ events st @
              [Log ''Categorisation of instances according to tags failed with this error : {}'',
               Log ''Describing the instances failed with the following error : {}''])"
    using get_instance_ids_after_raise [OF assms(10) cat, of now tz] by simp
  define evs where "evs = snd (get_instance_ids (Some user) cfg state now tz)"
  have get': "get_instance_ids (Some user) cfg state now tz = (None, evs)"
    by (simp add: evs_def get)
  have disp: "start_stop now start stop (Some user) cfg tz = (Some TypeError, evs)"
    using assms(9) get' by (rule start_stop_after_raise)
  have account: "process_account e cfg role_arn =
      (Some TypeError, [AssumeRole role_arn] @ evs_time @ [Log ''Lambda started for account : {}''] @ evs)"
    using assms(5,6,7,8) disp
    by (simp add: process_account_def Let_def create_temp_user_def)
  have "accounts_loop e cfg (cfg_role_arns cfg) =
      (Some TypeError, evs_earlier @ [AssumeRole role_arn] @ evs_time @
         [Log ''Lambda started for account : {}''] @ evs)"
    unfolding assms(3) by (rule accounts_loop_stops [OF assms(4) account])
  then have handler: "lambda_handler e =
       evs_earlier @ [AssumeRole role_arn] @ evs_time @ [Log ''Lambda started for account : {}''] @
       evs @ [Log ''Lambda failed to run with the following error : {}'']"
    by (simp add: lambda_handler_def assms(1,2))
  from cat get disp handler show ?thesis
    unfolding evs_def by (intro conjI)
qed

text \<open>
  The theorem at an environment with two accounts, where the snapshot of the first
  holds an instance without a \<^verbatim>\<open>Tags\<close> entry.
\<close>

theorem classification_failure_ends_invocation_witness:
  "env_config example_env = Some example_config \<and>
   is_weekday (env_weekday example_env) (cfg_halfDay example_config) = Inr True \<and>
   cfg_role_arns example_config =
     [] @ ''arn:aws:iam::111111111111:role/StartStop'' # [''arn:aws:iam::222222222222:role/StartStop''] \<and>
   accounts_loop example_env example_config [] = (None, []) \<and>
   4 < length (split_on CHR '':'' ''arn:aws:iam::111111111111:role/StartStop'') \<and>
   env_temp_user example_env ''arn:aws:iam::111111111111:role/StartStop'' = Some bare_client \<and>
   convert_to_datetime (env_now example_env ''arn:aws:iam::111111111111:role/StartStop'') example_config =
     (Some ((7, 0, 0, 0), (19, 0, 0, 0), mk_datetime 2024 1 15 8 0, ''GMT''), []) \<and>
   map_of (cfg_account_names example_config)
     (split_on CHR '':'' ''arn:aws:iam::111111111111:role/StartStop'' ! 4) = Some ''dev'' \<and>
   (7, 0, 0, 0) \<le> time_of (mk_datetime 2024 1 15 8 0) \<and>
   time_of (mk_datetime 2024 1 15 8 0) < (19, 0, 0, 0) \<and>
   describe_instances bare_client ''stopped'' = Inr (Some untagged_snapshot) \<and>
   reservations_loop example_config bare_client (Reservations untagged_snapshot) init_state =
     Inl (KeyError, init_state) \<and>
   lambda_handler example_env =
     [AssumeRole ''arn:aws:iam::111111111111:role/StartStop'',
      Log ''Lambda started for account : {}'',
      DescribeInstances ''stopped'',
      Log ''The date is : {} , {}'',
      Log ''Categorisation of instances according to tags failed with this error : {}'',
      Log ''Describing the instances failed with the following error : {}'',
      Log ''Lambda failed to run with the following error : {}'']"
proof -
  have h1: "env_config example_env = Some example_config"
    by (simp add: example_env_def)
  have h2: "is_weekday (env_weekday example_env) (cfg_halfDay example_config) = Inr True"
    using is_weekday_form [of "''12''" "''5''" 0]
    by (simp add: example_env_def example_config_def is_digit_def digit_val_def)
  have h3: "cfg_role_arns example_config =
     [] @ ''arn:aws:iam::111111111111:role/StartStop'' # [''arn:aws:iam::222222222222:role/StartStop'']"
    by (simp add: example_config_def)
  have h4: "accounts_loop example_env example_config [] = (None, [])"
    by simp
  have parts: "split_on CHR '':'' ''arn:aws:iam::111111111111:role/StartStop'' =
      [''arn'', ''aws'', ''iam'', [], ''111111111111'', ''role/StartStop'']"
    by simp
  have h5: "4 < length (split_on CHR '':'' ''arn:aws:iam::111111111111:role/StartStop'')"
    unfolding parts by simp
  have h6: "env_temp_user example_env ''arn:aws:iam::111111111111:role/StartStop'' = Some bare_client"
    by (simp add: example_env_def)
  have h7: "convert_to_datetime (env_now example_env ''arn:aws:iam::111111111111:role/StartStop'')
      example_config = (Some ((7, 0, 0, 0), (19, 0, 0, 0), mk_datetime 2024 1 15 8 0, ''GMT''), [])"
    using example_clock by (simp add: example_env_def)
  have h8: "map_of (cfg_account_names example_config)
     (split_on CHR '':'' ''arn:aws:iam::111111111111:role/StartStop'' ! 4) = Some ''dev''"
    unfolding parts by (simp add: example_config_def)
  have h9a: "(7, 0, 0, 0) \<le> time_of (mk_datetime 2024 1 15 8 0)"
    and h9b: "time_of (mk_datetime 2024 1 15 8 0) < (19, 0, 0, 0)"
    by (simp_all add: time_of_def mk_datetime_def)
  have h9: "(7, 0, 0, 0) \<le> time_of (mk_datetime 2024 1 15 8 0) \<and>
      time_of (mk_datetime 2024 1 15 8 0) < (19, 0, 0, 0) \<and> ''stopped'' = ''stopped'' \<or>
      \<not> ((7, 0, 0, 0) \<le> time_of (mk_datetime 2024 1 15 8 0) \<and>
         time_of (mk_datetime 2024 1 15 8 0) < (19, 0, 0, 0)) \<and>
      (19, 0, 0, 0) \<le> time_of (mk_datetime 2024 1 15 8 0) \<and> ''stopped'' = ''running''"
    using h9a h9b by simp
  have h10: "describe_instances bare_client ''stopped'' = Inr (Some untagged_snapshot)"
    by (simp add: bare_client_def)
  have h11: "reservations_loop example_config bare_client (Reservations untagged_snapshot) init_state =
     Inl (KeyError, init_state)"
    by (simp add: untagged_snapshot_def categorise_reservation_def categorise_instance_def
        init_state_def)
  have ev: "events init_state = []"
    by (simp add: init_state_def)
  note run = classification_failure_ends_invocation [OF h1 h2 h3 h4 h5 h6 h7 h8 h9 h10 h11]
  show ?thesis
    using h1 h2 h3 h4 h5 h6 h7 h8 h9a h9b h10 h11 run
    by (simp add: ev)
qed

text \<open>
  As the claim is worded, the error of unpacking the absent result is caught only by the
  handler of the entry point. The direct caller catches it: \<^verbatim>\<open>get_instance_ids\<close>
  returns, with its own log line in the trace.
\<close>

theorem get_instance_ids_catches_counterexample:
  "get_instance_ids (Some bare_client) example_config ''stopped'' (mk_datetime 2024 1 15 8 0) ''GMT'' =
     (None, [DescribeInstances ''stopped'',
             Log ''The date is : {} , {}'',
             Log ''Categorisation of instances according to tags failed with this error : {}'',
             Log ''Describing the instances failed with the following error : {}''])"
  by (simp add: get_instance_ids_def bare_client_def untagged_snapshot_def classifier_defs)

end
